theory Spec2Isabelle
  imports Complex_Main "HOL-Library.Log_Nat"
begin

section \<open>JavaScript values used by the sync adapters\<close>

text \<open>
  A JavaScript number is an IEEE 754 double. A finite double is represented by the
  rational it denotes, beside NaN and the two infinities; the sign of zero is outside the
  model. The sum, the product and the quotient of two finite doubles are the exact
  results rounded to the nearest double, a tie going to the even significand, and to an
  infinity on overflow, as IEEE 754 defines them.
\<close>

datatype jsnum = Fin rat | PosInf | NegInf | NaN

text \<open>The binary exponent of a positive rational: the \<open>e\<close> with
  \<open>2 ^ e \<le> q < 2 ^ (e + 1)\<close>, from the bit lengths of the numerator and the
  denominator.\<close>

definition ilog2 :: "rat \<Rightarrow> int" where
  "ilog2 q =
     (let (a, b) = quotient_of q; e = bitlen a - bitlen b
      in if 2 powi e \<le> q then e else e - 1)"

text \<open>The nearest integer, a tie going to the even one.\<close>

definition round_even :: "rat \<Rightarrow> int" where
  "round_even m =
     (let f = \<lfloor>m\<rfloor>; d = m - of_int f
      in if d < 1 / 2 then f else if 1 / 2 < d then f + 1 else if even f then f else f + 1)"

text \<open>
  Rounding to the nearest double. A double has a significand of 53 bits, so in the binade
  of exponent \<open>e\<close> the doubles are the multiples of \<open>2 ^ (e - 52)\<close>; below the smallest
  normal exponent, - 1022, the spacing stays that of the subnormal doubles,
  \<open>2 ^ (- 1074)\<close>. A rounded value of \<open>2 ^ 1024\<close> or more is an infinity.
\<close>

definition double_limit :: rat where
  "double_limit = 2 powi 1024"

definition to_double :: "rat \<Rightarrow> jsnum" where
  "to_double q =
     (if q = 0 then Fin 0
      else
        let a = \<bar>q\<bar>;
            e = max (ilog2 a) (- 1022);
            ulp = 2 powi (e - 52);
            v = of_int (round_even (a / ulp)) * ulp
        in if double_limit \<le> v then (if 0 < q then PosInf else NegInf)
           else Fin (if 0 < q then v else - v))"

text \<open>\<open>a + b\<close> on numbers.\<close>

fun js_add :: "jsnum \<Rightarrow> jsnum \<Rightarrow> jsnum" where
  "js_add NaN _ = NaN"
| "js_add _ NaN = NaN"
| "js_add (Fin a) (Fin b) = to_double (a + b)"
| "js_add PosInf NegInf = NaN"
| "js_add NegInf PosInf = NaN"
| "js_add PosInf _ = PosInf"
| "js_add _ PosInf = PosInf"
| "js_add NegInf _ = NegInf"
| "js_add _ NegInf = NegInf"

text \<open>\<open>a / b\<close> on numbers: \<open>0 / 0\<close> and \<open>Infinity / Infinity\<close> are NaN, a non-zero
  finite number divided by zero is an infinity.\<close>

fun js_div :: "jsnum \<Rightarrow> jsnum \<Rightarrow> jsnum" where
  "js_div NaN _ = NaN"
| "js_div _ NaN = NaN"
| "js_div (Fin a) (Fin b) =
     (if b = 0 then (if a = 0 then NaN else if 0 < a then PosInf else NegInf)
      else to_double (a / b))"
| "js_div (Fin a) _ = Fin 0"
| "js_div PosInf (Fin b) = (if 0 \<le> b then PosInf else NegInf)"
| "js_div NegInf (Fin b) = (if 0 \<le> b then NegInf else PosInf)"
| "js_div _ _ = NaN"

text \<open>\<open>a * b\<close> on numbers: \<open>Infinity * 0\<close> is NaN.\<close>

fun js_mul :: "jsnum \<Rightarrow> jsnum \<Rightarrow> jsnum" where
  "js_mul NaN _ = NaN"
| "js_mul _ NaN = NaN"
| "js_mul (Fin a) (Fin b) = to_double (a * b)"
| "js_mul (Fin a) PosInf = (if a = 0 then NaN else if 0 < a then PosInf else NegInf)"
| "js_mul (Fin a) NegInf = (if a = 0 then NaN else if 0 < a then NegInf else PosInf)"
| "js_mul PosInf (Fin b) = (if b = 0 then NaN else if 0 < b then PosInf else NegInf)"
| "js_mul NegInf (Fin b) = (if b = 0 then NaN else if 0 < b then NegInf else PosInf)"
| "js_mul PosInf PosInf = PosInf"
| "js_mul NegInf NegInf = PosInf"
| "js_mul PosInf NegInf = NegInf"
| "js_mul NegInf PosInf = NegInf"

text \<open>\<open>Math.round\<close>: the nearest integer, a tie going up; NaN and the infinities are
  returned as they are.\<close>

fun Math_round :: "jsnum \<Rightarrow> jsnum" where
  "Math_round (Fin q) = Fin (of_int (round q))"
| "Math_round x = x"

text \<open>\<open>Math.min\<close> of two arguments: NaN as soon as one argument is NaN.\<close>

fun Math_min :: "jsnum \<Rightarrow> jsnum \<Rightarrow> jsnum" where
  "Math_min NaN _ = NaN"
| "Math_min _ NaN = NaN"
| "Math_min NegInf _ = NegInf"
| "Math_min _ NegInf = NegInf"
| "Math_min PosInf y = y"
| "Math_min x PosInf = x"
| "Math_min (Fin a) (Fin b) = Fin (min a b)"

text \<open>The values a property of an untyped object can hold, as far as \<open>typeof\<close> tells
  them apart; a property that is absent reads as \<open>JUndefined\<close>.\<close>

datatype jsval = JUndefined | JNull | JNum jsnum | JStr string | JBool bool

section \<open>Exceptions and state\<close>

text \<open>The messages of the errors the adapters construct. The literals of the source are
  Chinese sentences; each constructor names one literal by its place in the source.
  \<open>MsgOther\<close> is a message that comes from a collaborator.\<close>

datatype msg =
    MsgInvalidToken
  | MsgConnectionTestFailed
  | MsgConnectFailed
  | MsgConnectFirst
  | MsgNotConnected
  | MsgSyncFailed
  | MsgAutoSyncFailed
  | MsgWebDAVNotConfigured
  | MsgUrlEmpty
  | MsgUrlScheme
  | MsgCannotReach
  | MsgSyncDenied
  | MsgSyncError
  | MsgOther string

text \<open>A thrown value: an \<open>Error\<close> object with its message, or any other value.\<close>

datatype js_exn = ErrorObj msg | Thrown jsval

text \<open>\<open>error instanceof Error ? error.message : fallback\<close>.\<close>

fun message_or :: "js_exn \<Rightarrow> msg \<Rightarrow> msg" where
  "message_or (ErrorObj m) fallback = m"
| "message_or (Thrown v) fallback = fallback"

text \<open>
  A method of an adapter is a function from the state before the call to its outcome and
  the state after it; the outcome is the value returned (\<open>Inr\<close>) or the value thrown
  (\<open>Inl\<close>). A method of the source declared \<open>async\<close> is run here from its call to its
  settlement in one piece: what happens at an \<open>await\<close> is a parameter of the method (the
  outcome of the awaited call), and other calls do not interleave with it. A rejected
  promise is the outcome \<open>Inl\<close>.
\<close>

type_synonym ('s, 'a) js = "'s \<Rightarrow> (js_exn + 'a) \<times> 's"

definition js_return :: "'a \<Rightarrow> ('s, 'a) js" where
  "js_return a = (\<lambda>s. (Inr a, s))"

definition js_throw :: "js_exn \<Rightarrow> ('s, 'a) js" where
  "js_throw e = (\<lambda>s. (Inl e, s))"

definition js_bind :: "('s, 'a) js \<Rightarrow> ('a \<Rightarrow> ('s, 'b) js) \<Rightarrow> ('s, 'b) js" where
  "js_bind m f = (\<lambda>s. case m s of (Inl e, s') \<Rightarrow> (Inl e, s') | (Inr a, s') \<Rightarrow> f a s')"

definition js_seq :: "('s, unit) js \<Rightarrow> ('s, 'b) js \<Rightarrow> ('s, 'b) js" where
  "js_seq m n = js_bind m (\<lambda>_. n)"

text \<open>\<open>try { m } catch (error) { h error }\<close>.\<close>

definition try_catch :: "('s, 'a) js \<Rightarrow> (js_exn \<Rightarrow> ('s, 'a) js) \<Rightarrow> ('s, 'a) js" where
  "try_catch m h = (\<lambda>s. case m s of (Inl e, s') \<Rightarrow> h e s' | (Inr a, s') \<Rightarrow> (Inr a, s'))"

definition js_modify :: "('s \<Rightarrow> 's) \<Rightarrow> ('s, unit) js" where
  "js_modify f = (\<lambda>s. (Inr (), f s))"

text \<open>\<open>if (b) { m }\<close>.\<close>

definition js_when :: "bool \<Rightarrow> ('s, unit) js \<Rightarrow> ('s, unit) js" where
  "js_when b m = (if b then m else js_return ())"

text \<open>The outcome of an awaited call to a collaborator.\<close>

definition js_await :: "js_exn + 'a \<Rightarrow> ('s, 'a) js" where
  "js_await r = (\<lambda>s. (r, s))"

text \<open>\<open>xs.forEach(f)\<close>: a throw of \<open>f\<close> ends the iteration and propagates.\<close>

fun forEach :: "('a \<Rightarrow> ('s, unit) js) \<Rightarrow> 'a list \<Rightarrow> ('s, unit) js" where
  "forEach f [] = js_return ()"
| "forEach f (x # xs) = js_seq (f x) (forEach f xs)"

section \<open>Status model\<close>

datatype sync_state = Idle | Connecting | Connected | Syncing | Paused | Completed | Error

record error_info =
  message :: msg
  details :: js_exn

text \<open>\<open>SyncStatus\<close> (interfaces/SyncAdapter.ts): an optional property that is absent or
  \<open>undefined\<close> is \<open>None\<close>.\<close>

record SyncStatus =
  status :: sync_state
  progress :: "jsnum option"
  error :: "error_info option"

text \<open>\<open>Partial<SyncStatus>\<close>, the argument of \<open>updateStatus\<close>: the outer \<open>None\<close> is a
  key the object literal does not name.\<close>

record partial_status =
  p_status :: "sync_state option"
  p_progress :: "jsnum option option"
  p_error :: "error_info option option"

text \<open>The object spread \<open>{ ...old, ...upd }\<close>.\<close>

definition spread :: "SyncStatus \<Rightarrow> partial_status \<Rightarrow> SyncStatus" where
  "spread old upd =
     \<lparr>status = (case p_status upd of None \<Rightarrow> status old | Some v \<Rightarrow> v),
      progress = (case p_progress upd of None \<Rightarrow> progress old | Some v \<Rightarrow> v),
      error = (case p_error upd of None \<Rightarrow> error old | Some v \<Rightarrow> v)\<rparr>"

text \<open>The object literals the adapters pass to \<open>updateStatus\<close>.\<close>

definition only_status :: "sync_state \<Rightarrow> partial_status" where
  "only_status st = \<lparr>p_status = Some st, p_progress = None, p_error = None\<rparr>"

definition status_progress :: "sync_state \<Rightarrow> jsnum \<Rightarrow> partial_status" where
  "status_progress st p = \<lparr>p_status = Some st, p_progress = Some (Some p), p_error = None\<rparr>"

definition status_error :: "msg \<Rightarrow> js_exn \<Rightarrow> partial_status" where
  "status_error m d =
     \<lparr>p_status = Some Error, p_progress = None,
      p_error = Some (Some \<lparr>message = m, details = d\<rparr>)\<rparr>"

section \<open>Events\<close>

text \<open>\<open>SyncEventData\<close>, with the one extra key the adapters add (\<open>progress\<close>).\<close>

record SyncEventData =
  ev_type :: string
  ev_status :: "SyncStatus option"
  ev_error :: "error_info option"
  ev_progress :: "jsnum option"

text \<open>The \<open>data\<close> argument of a dispatch: the keys of the event other than its type.\<close>

record event_payload =
  pl_status :: "SyncStatus option"
  pl_error :: "error_info option"
  pl_progress :: "jsnum option"

definition no_payload :: event_payload where
  "no_payload = \<lparr>pl_status = None, pl_error = None, pl_progress = None\<rparr>"

definition error_payload :: "msg \<Rightarrow> js_exn \<Rightarrow> event_payload" where
  "error_payload m d =
     \<lparr>pl_status = None, pl_error = Some \<lparr>message = m, details = d\<rparr>, pl_progress = None\<rparr>"

definition progress_payload :: "jsnum \<Rightarrow> event_payload" where
  "progress_payload p = \<lparr>pl_status = None, pl_error = None, pl_progress = Some p\<rparr>"

text \<open>What an adapter does to the world outside it: the calls of \<open>console.error\<close> and
  the calls on its collaborators (stores, timers, replication handle).\<close>

datatype log_entry = ListenerError string js_exn | WebDAVListenerError js_exn | AutoSyncError js_exn

record document =
  doc_id :: string
  doc_rev :: "string option"
  body :: string

datatype effect =
    PutLocal document
  | PutRemote document
  | SetInterval nat
  | ClearInterval nat
  | CancelReplication
  | CloseRemote

text \<open>
  The part of the state every adapter has. A listener is named by a number (its identity
  as a function object); \<open>listenerThrows l d\<close> is what the listener \<open>l\<close> throws when it is
  called with the event \<open>d\<close>, \<open>None\<close> when it returns. \<open>invoked\<close> records the calls of
  listeners, in order. A listener that calls back into the adapter is outside the model.
\<close>

record world =
  listenerThrows :: "nat \<Rightarrow> SyncEventData \<Rightarrow> js_exn option"
  invoked :: "(nat \<times> SyncEventData) list"
  console :: "log_entry list"
  effects :: "effect list"

definition call_listener :: "nat \<Rightarrow> SyncEventData \<Rightarrow> ('a world_scheme, unit) js" where
  "call_listener l d =
     (\<lambda>s. (case listenerThrows s l d of Some e \<Rightarrow> Inl e | None \<Rightarrow> Inr (),
            s\<lparr>invoked := invoked s @ [(l, d)]\<rparr>))"

definition console_error :: "log_entry \<Rightarrow> ('a world_scheme, unit) js" where
  "console_error entry = js_modify (\<lambda>s. s\<lparr>console := console s @ [entry]\<rparr>)"

definition do_effect :: "effect \<Rightarrow> ('a world_scheme, unit) js" where
  "do_effect x = js_modify (\<lambda>s. s\<lparr>effects := effects s @ [x]\<rparr>)"

text \<open>\<open>set.add(l)\<close> and \<open>set.delete(l)\<close> on a \<open>Set\<close>, kept as a list in insertion
  order.\<close>

definition set_add :: "nat \<Rightarrow> nat list \<Rightarrow> nat list" where
  "set_add l ls = (if l \<in> set ls then ls else ls @ [l])"

definition set_delete :: "nat \<Rightarrow> nat list \<Rightarrow> nat list" where
  "set_delete l ls = filter (\<lambda>x. x \<noteq> l) ls"

section \<open>BaseSyncAdapter\<close>

record BaseSyncAdapter = world +
  adapter_status :: SyncStatus
  eventListeners :: "string \<rightharpoonup> nat list"

text \<open>\<open>getSyncStatus\<close> returns a copy of the status.\<close>

definition getSyncStatus :: "'a BaseSyncAdapter_scheme \<Rightarrow> SyncStatus" where
  "getSyncStatus s = adapter_status s"

definition addEventListener :: "string \<Rightarrow> nat \<Rightarrow> ('a BaseSyncAdapter_scheme, unit) js" where
  "addEventListener event l =
     js_modify (\<lambda>s. s\<lparr>eventListeners := (eventListeners s)
        (event \<mapsto> set_add l (case eventListeners s event of None \<Rightarrow> [] | Some ls \<Rightarrow> ls))\<rparr>)"

definition removeEventListener :: "string \<Rightarrow> nat \<Rightarrow> ('a BaseSyncAdapter_scheme, unit) js" where
  "removeEventListener event l =
     js_modify (\<lambda>s.
       case eventListeners s event of
         None \<Rightarrow> s
       | Some ls \<Rightarrow>
           (if set_delete l ls = []
            then s\<lparr>eventListeners := (eventListeners s)(event := None)\<rparr>
            else s\<lparr>eventListeners := (eventListeners s)(event \<mapsto> set_delete l ls)\<rparr>))"

text \<open>The event object \<open>{ type: event, ...data }\<close> of \<open>dispatchEvent\<close>.\<close>

definition base_eventData :: "string \<Rightarrow> event_payload \<Rightarrow> SyncEventData" where
  "base_eventData event data =
     \<lparr>ev_type = event, ev_status = pl_status data, ev_error = pl_error data,
      ev_progress = pl_progress data\<rparr>"

text \<open>\<open>dispatchEvent\<close> (part_006 77-94).\<close>

definition dispatchEvent :: "string \<Rightarrow> event_payload \<Rightarrow> ('a BaseSyncAdapter_scheme, unit) js" where
  "dispatchEvent event data =
     (\<lambda>s. case eventListeners s event of
        None \<Rightarrow> js_return () s
      | Some listeners \<Rightarrow>
          forEach (\<lambda>listener.
            try_catch (call_listener listener (base_eventData event data))
              (\<lambda>error. console_error (ListenerError event error)))
            listeners s)"

text \<open>\<open>updateStatus\<close> (part_006 100-117).\<close>

definition updateStatus :: "partial_status \<Rightarrow> ('a BaseSyncAdapter_scheme, unit) js" where
  "updateStatus upd =
     js_seq (js_modify (\<lambda>s. s\<lparr>adapter_status := spread (adapter_status s) upd\<rparr>))
       (\<lambda>s. if p_status upd = Some Syncing then
               dispatchEvent ''sync-progress''
                 \<lparr>pl_status = Some (adapter_status s), pl_error = None, pl_progress = None\<rparr> s
             else if p_status upd = Some Error then
               dispatchEvent ''sync-error''
                 \<lparr>pl_status = Some (adapter_status s),
                  pl_error = (case p_error upd of None \<Rightarrow> None | Some v \<Rightarrow> v),
                  pl_progress = None\<rparr> s
             else js_return () s)"

text \<open>What a dispatch leaves behind when every listener of \<open>ls\<close> has been called with
  the event \<open>d\<close>: the calls, and one console entry for each listener that threw.\<close>

definition listener_errors ::
  "(js_exn \<Rightarrow> log_entry) \<Rightarrow> (nat \<Rightarrow> SyncEventData \<Rightarrow> js_exn option) \<Rightarrow> SyncEventData \<Rightarrow> nat list
   \<Rightarrow> log_entry list" where
  "listener_errors entry thr d ls =
     concat (map (\<lambda>l. case thr l d of Some e \<Rightarrow> [entry e] | None \<Rightarrow> []) ls)"

definition notified ::
  "(js_exn \<Rightarrow> log_entry) \<Rightarrow> SyncEventData \<Rightarrow> nat list \<Rightarrow> 'a world_scheme \<Rightarrow> 'a world_scheme" where
  "notified entry d ls s =
     s\<lparr>invoked := invoked s @ map (\<lambda>l. (l, d)) ls,
       console := console s @ listener_errors entry (listenerThrows s) d ls\<rparr>"

definition listeners_of :: "(string \<rightharpoonup> nat list) \<Rightarrow> string \<Rightarrow> nat list" where
  "listeners_of m event = (case m event of None \<Rightarrow> [] | Some ls \<Rightarrow> ls)"

section \<open>Merge engine of the RemoteStorage adapter\<close>

text \<open>A row of \<open>localDB.allDocs({ include_docs: true })\<close>.\<close>

record row =
  row_id :: string
  row_doc :: "document option"

text \<open>\<open>a < b\<close> on two strings: code unit by code unit, a proper prefix being smaller.\<close>

fun str_less :: "string \<Rightarrow> string \<Rightarrow> bool" where
  "str_less [] [] = False"
| "str_less [] (y # ys) = True"
| "str_less (x # xs) [] = False"
| "str_less (x # xs) (y # ys) =
     (if (of_char x :: nat) < of_char y then True
      else if (of_char y :: nat) < of_char x then False
      else str_less xs ys)"

text \<open>\<open>a > b\<close> on two revision markers: \<open>false\<close> as soon as one is \<open>undefined\<close>, which
  compares as NaN.\<close>

fun js_gt :: "string option \<Rightarrow> string option \<Rightarrow> bool" where
  "js_gt (Some a) (Some b) = str_less b a"
| "js_gt _ _ = False"

text \<open>Truthiness of a revision marker: \<open>undefined\<close> and the empty string are falsy.\<close>

fun truthy :: "string option \<Rightarrow> bool" where
  "truthy None = False"
| "truthy (Some s) = (s \<noteq> [])"

text \<open>The outcomes of the calls a reconciliation pass awaits: the listing of the remote
  documents, the rows of the local store, and for each write whether it is rejected,
  which may depend on the calls made before it.\<close>

record sync_env =
  remoteListing :: "js_exn + document list"
  allDocs :: "js_exn + row list"
  putOutcome :: "effect list \<Rightarrow> effect \<Rightarrow> js_exn option"

text \<open>A write to a store: the call is made, then its outcome is awaited.\<close>

definition store_call :: "sync_env \<Rightarrow> effect \<Rightarrow> ('a world_scheme, unit) js" where
  "store_call env x =
     (\<lambda>s. (case putOutcome env (effects s) x of Some e \<Rightarrow> Inl e | None \<Rightarrow> Inr (),
            s\<lparr>effects := effects s @ [x]\<rparr>))"

text \<open>The condition of RemoteStorageAdapter.ts 235.\<close>

definition remote_wins :: "row option \<Rightarrow> document \<Rightarrow> bool" where
  "remote_wins localDoc remoteDoc =
     (case localDoc of
        None \<Rightarrow> True
      | Some r \<Rightarrow>
          (case row_doc r of
             None \<Rightarrow> True
           | Some d \<Rightarrow> \<not> truthy (doc_rev d) \<or> js_gt (doc_rev remoteDoc) (doc_rev d)))"

text \<open>The loop of RemoteStorageAdapter.ts 231-238.\<close>

definition syncRemoteToLocal ::
  "sync_env \<Rightarrow> row list \<Rightarrow> document list \<Rightarrow> ('a world_scheme, unit) js" where
  "syncRemoteToLocal env rows remoteDocs =
     forEach (\<lambda>remoteDoc.
        js_when (remote_wins (find (\<lambda>r. row_id r = doc_id remoteDoc) rows) remoteDoc)
          (store_call env (PutLocal remoteDoc)))
       remoteDocs"

text \<open>The conditions of RemoteStorageAdapter.ts 245 and 247.\<close>

definition local_wins :: "document \<Rightarrow> document option \<Rightarrow> bool" where
  "local_wins d remoteDoc =
     (case remoteDoc of None \<Rightarrow> True | Some rd \<Rightarrow> js_gt (doc_rev d) (doc_rev rd))"

text \<open>The loop of RemoteStorageAdapter.ts 241-250.\<close>

definition syncLocalToRemote ::
  "sync_env \<Rightarrow> row list \<Rightarrow> document list \<Rightarrow> ('a world_scheme, unit) js" where
  "syncLocalToRemote env rows remoteDocs =
     forEach (\<lambda>localRow.
        case row_doc localRow of
          None \<Rightarrow> js_return ()
        | Some d \<Rightarrow>
            (if \<not> truthy (doc_rev d) then js_return ()
             else js_when (local_wins d (find (\<lambda>rd. doc_id rd = row_id localRow) remoteDocs))
                    (store_call env (PutRemote d))))
       rows"

section \<open>RemoteStorageAdapter\<close>

record RemoteStorageConfig =
  userAddress :: string
  cfg_token :: string
  storageModule :: string
  autoSyncInterval :: "int option"

record RemoteStorageInfo =
  server :: string
  webdavPath :: string
  authEndpoint :: string
  storageTypes :: "string list"

record RemoteStorageToken =
  accessToken :: string
  tokenType :: string

text \<open>The fields of the class. A database and a timer are named by a number. The field
  \<open>remoteDB\<close> of the source is never assigned and is left out.\<close>

record RemoteStorageAdapter = BaseSyncAdapter +
  localDB :: "nat option"
  config :: "RemoteStorageConfig option"
  autoSyncTimer :: "nat option"
  remoteInfo :: "RemoteStorageInfo option"
  token :: "RemoteStorageToken option"

text \<open>A new adapter; the behaviour of the listeners is a parameter.\<close>

definition rs_new :: "(nat \<Rightarrow> SyncEventData \<Rightarrow> js_exn option) \<Rightarrow> RemoteStorageAdapter" where
  "rs_new thr =
     \<lparr>listenerThrows = thr, invoked = [], console = [], effects = [],
      adapter_status = \<lparr>status = Idle, progress = None, error = None\<rparr>,
      eventListeners = Map.empty,
      localDB = None, config = None, autoSyncTimer = None, remoteInfo = None, token = None\<rparr>"

text \<open>The outcomes of the calls \<open>connect\<close> awaits: \<open>discoverRemoteStorage\<close>, and the test
  request with the \<open>ok\<close> flag of its response.\<close>

record connect_env =
  discovered :: "js_exn + RemoteStorageInfo"
  testResponse :: "js_exn + bool"

text \<open>\<open>connect\<close> (RemoteStorageAdapter.ts 94-158).\<close>

definition rs_connect :: "RemoteStorageConfig \<Rightarrow> connect_env \<Rightarrow> (RemoteStorageAdapter, bool) js" where
  "rs_connect cfg env =
     try_catch
       (js_seq (updateStatus (only_status Connecting))
       (js_seq (js_modify (\<lambda>s. s\<lparr>config := Some cfg\<rparr>))
       (js_bind (js_await (discovered env)) (\<lambda>info.
        js_seq (js_when (cfg_token cfg = []) (js_throw (ErrorObj MsgInvalidToken)))
       (js_seq (js_modify (\<lambda>s. s\<lparr>remoteInfo := Some info,
                  token := Some \<lparr>accessToken = cfg_token cfg, tokenType = ''Bearer''\<rparr>\<rparr>))
       (js_bind (js_await (testResponse env)) (\<lambda>ok.
        js_seq (js_when (\<not> ok) (js_throw (ErrorObj MsgConnectionTestFailed)))
       (js_seq (updateStatus (only_status Connected))
       (js_seq (dispatchEvent ''connected'' no_payload)
       (js_return True))))))))))
       (\<lambda>error.
          js_seq (updateStatus (status_error (message_or error MsgConnectFailed) error))
         (js_seq (dispatchEvent ''connection-error''
                    (error_payload (message_or error MsgConnectFailed) error))
         (js_return False)))"

text \<open>\<open>listRemoteDocuments\<close> (RemoteStorageAdapter.ts 280-302).\<close>

definition listRemoteDocuments :: "sync_env \<Rightarrow> (RemoteStorageAdapter, document list) js" where
  "listRemoteDocuments env =
     (\<lambda>s. if remoteInfo s = None \<or> token s = None then js_throw (ErrorObj MsgNotConnected) s
           else js_await (remoteListing env) s)"

text \<open>\<open>triggerSync\<close> (RemoteStorageAdapter.ts 213-275). \<open>putRemoteDocument\<close> checks
  \<open>remoteInfo\<close> and \<open>token\<close> again; \<open>triggerSync\<close> has checked both and nothing in the pass
  resets them, so the call is the write itself.\<close>

definition rs_triggerSync :: "sync_env \<Rightarrow> (RemoteStorageAdapter, unit) js" where
  "rs_triggerSync env =
     (\<lambda>s. if localDB s = None \<or> remoteInfo s = None \<or> token s = None
           then js_throw (ErrorObj MsgNotConnected) s
           else
             try_catch
               (js_seq (updateStatus (status_progress Syncing (Fin 0)))
               (js_bind (listRemoteDocuments env) (\<lambda>remoteDocs.
                js_seq (updateStatus (status_progress Syncing (Fin 30)))
               (js_bind (js_await (allDocs env)) (\<lambda>localDocs.
                js_seq (updateStatus (status_progress Syncing (Fin 60)))
               (js_seq (syncRemoteToLocal env localDocs remoteDocs)
               (js_seq (syncLocalToRemote env localDocs remoteDocs)
               (js_seq (updateStatus (status_progress Completed (Fin 100)))
               (dispatchEvent ''sync-complete'' no_payload)))))))))
               (\<lambda>error.
                  js_seq (updateStatus (status_error (message_or error MsgSyncFailed) error))
                    (dispatchEvent ''sync-error''
                       (error_payload (message_or error MsgSyncFailed) error)))
               s)"

text \<open>\<open>startSync\<close> (RemoteStorageAdapter.ts 164-191); \<open>timer\<close> is the handle that
  \<open>setInterval\<close> returns.\<close>

definition rs_startSync :: "nat \<Rightarrow> sync_env \<Rightarrow> nat \<Rightarrow> (RemoteStorageAdapter, unit) js" where
  "rs_startSync db env timer =
     (\<lambda>s. if config s = None \<or> remoteInfo s = None \<or> token s = None
           then js_throw (ErrorObj MsgConnectFirst) s
           else
             (js_seq (js_modify (\<lambda>s. s\<lparr>localDB := Some db\<rparr>))
             (js_seq (rs_triggerSync env)
             (\<lambda>s. case config s of
                None \<Rightarrow> js_return () s
              | Some c \<Rightarrow>
                  (case autoSyncInterval c of
                     None \<Rightarrow> js_return () s
                   | Some n \<Rightarrow>
                       js_when (n \<noteq> 0 \<and> 0 < n)
                         (js_seq (do_effect (SetInterval timer))
                                 (js_modify (\<lambda>s. s\<lparr>autoSyncTimer := Some timer\<rparr>))) s)))) s)"

text \<open>The callback of the timer (RemoteStorageAdapter.ts 178-189).\<close>

definition rs_autoSyncTick :: "sync_env \<Rightarrow> (RemoteStorageAdapter, unit) js" where
  "rs_autoSyncTick env =
     try_catch (rs_triggerSync env)
       (\<lambda>error.
          js_seq (console_error (AutoSyncError error))
                 (updateStatus (status_error (message_or error MsgAutoSyncFailed) error)))"

text \<open>\<open>stopSync\<close> (RemoteStorageAdapter.ts 196-208).\<close>

definition rs_stopSync :: "(RemoteStorageAdapter, unit) js" where
  "rs_stopSync =
     js_seq (\<lambda>s. case autoSyncTimer s of
                    None \<Rightarrow> js_return () s
                  | Some t \<Rightarrow>
                      js_seq (do_effect (ClearInterval t))
                             (js_modify (\<lambda>s. s\<lparr>autoSyncTimer := None\<rparr>)) s)
    (js_seq (updateStatus (only_status Idle))
            (dispatchEvent ''sync-stopped'' no_payload))"

section \<open>Progress estimator\<close>

text \<open>The change report of a replication: the two counters \<open>calculateProgress\<close> reads.
  The argument \<open>info\<close> of the source has type \<open>any\<close>; \<open>None\<close> stands for a falsy
  \<open>info\<close>.\<close>

record change_info =
  docs_read :: jsval
  docs_written :: jsval

text \<open>\<open>calculateProgress\<close> (WebDAVAdapter.ts 480-495, GoogleDriveAdapter.ts 222-237; the
  two bodies are the same text).\<close>

definition calculateProgress :: "change_info option \<Rightarrow> jsnum" where
  "calculateProgress info =
     (case info of
        None \<Rightarrow> Fin 50
      | Some i \<Rightarrow>
          (case docs_written i of
             JNum w \<Rightarrow>
               (case docs_read i of
                  JNum r \<Rightarrow>
                    (let total = js_add r w;
                         current = w
                     in Math_min (Math_round (js_mul (js_div current total) (Fin 100))) (Fin 99))
                | _ \<Rightarrow> Fin 50)
           | _ \<Rightarrow> Fin 50))"



section \<open>WebDAVAdapter\<close>

record WebDAVConfig =
  url :: string
  username :: "string option"
  password :: "string option"
  dbPath :: "string option"
  autoSync :: "bool option"
  syncInterval :: "int option"

text \<open>The fields of the class, which implements the interface on its own. A database, a
  replication handle and a timer are named by a number, the remote database by its
  address.\<close>

record WebDAVAdapter = world +
  syncStatus :: SyncStatus
  wd_eventListeners :: "string \<rightharpoonup> nat list"
  client :: "(string \<times> string option \<times> string option) option"
  wd_config :: "WebDAVConfig option"
  wd_localDB :: "nat option"
  remoteDB :: "string option"
  syncHandler :: "nat option"
  wd_autoSyncTimer :: "nat option"

text \<open>The constructor registers an empty set for each of nine event names.\<close>

definition wd_event_names :: "string list" where
  "wd_event_names =
     [''connect-success'', ''connect-error'', ''sync-progress'', ''sync-error'',
      ''sync-complete'', ''sync-paused'', ''sync-active'', ''sync-denied'', ''sync-stopped'']"

definition wd_new :: "(nat \<Rightarrow> SyncEventData \<Rightarrow> js_exn option) \<Rightarrow> WebDAVAdapter" where
  "wd_new thr =
     \<lparr>listenerThrows = thr, invoked = [], console = [], effects = [],
      syncStatus = \<lparr>status = Idle, progress = None, error = None\<rparr>,
      wd_eventListeners = (\<lambda>event. if event \<in> set wd_event_names then Some [] else None),
      client = None, wd_config = None, wd_localDB = None, remoteDB = None,
      syncHandler = None, wd_autoSyncTimer = None\<rparr>"

definition wd_getSyncStatus :: "WebDAVAdapter \<Rightarrow> SyncStatus" where
  "wd_getSyncStatus s = syncStatus s"

definition wd_addEventListener :: "string \<Rightarrow> nat \<Rightarrow> (WebDAVAdapter, unit) js" where
  "wd_addEventListener event l =
     js_modify (\<lambda>s.
       case wd_eventListeners s event of
         Some ls \<Rightarrow> s\<lparr>wd_eventListeners := (wd_eventListeners s)(event \<mapsto> set_add l ls)\<rparr>
       | None \<Rightarrow> s\<lparr>wd_eventListeners := (wd_eventListeners s)(event \<mapsto> [l])\<rparr>)"

definition wd_removeEventListener :: "string \<Rightarrow> nat \<Rightarrow> (WebDAVAdapter, unit) js" where
  "wd_removeEventListener event l =
     js_modify (\<lambda>s.
       case wd_eventListeners s event of
         Some ls \<Rightarrow> s\<lparr>wd_eventListeners := (wd_eventListeners s)(event \<mapsto> set_delete l ls)\<rparr>
       | None \<Rightarrow> s)"

text \<open>The event object \<open>{ type: event, status: this.syncStatus, ...data }\<close>.\<close>

definition wd_eventData :: "string \<Rightarrow> SyncStatus \<Rightarrow> event_payload \<Rightarrow> SyncEventData" where
  "wd_eventData event st data =
     \<lparr>ev_type = event,
      ev_status = (case pl_status data of None \<Rightarrow> Some st | Some v \<Rightarrow> Some v),
      ev_error = pl_error data, ev_progress = pl_progress data\<rparr>"

text \<open>\<open>triggerEvent\<close> (WebDAVAdapter.ts 152-170).\<close>

definition triggerEvent :: "string \<Rightarrow> event_payload \<Rightarrow> (WebDAVAdapter, unit) js" where
  "triggerEvent event data =
     (\<lambda>s. case wd_eventListeners s event of
        None \<Rightarrow> js_return () s
      | Some listeners \<Rightarrow>
          forEach (\<lambda>listener.
            try_catch (call_listener listener (wd_eventData event (syncStatus s) data))
              (\<lambda>error. console_error (WebDAVListenerError error)))
            listeners s)"

text \<open>\<open>updateStatus\<close> (WebDAVAdapter.ts 176-181).\<close>

definition wd_updateStatus :: "partial_status \<Rightarrow> (WebDAVAdapter, unit) js" where
  "wd_updateStatus upd = js_modify (\<lambda>s. s\<lparr>syncStatus := spread (syncStatus s) upd\<rparr>)"

text \<open>The test of the regular expression of \<open>checkConnection\<close> (the string starts with \<open>http://\<close> or \<open>https://\<close>, in any case of letters) and \<open>url.includes('error')\<close>.\<close>

definition to_lower :: "char \<Rightarrow> char" where
  "to_lower c =
     (let n = (of_char c :: nat) in if 65 \<le> n \<and> n \<le> 90 then char_of (n + 32) else c)"

definition starts_with :: "string \<Rightarrow> string \<Rightarrow> bool" where
  "starts_with p s = (take (length p) s = p)"

definition http_scheme :: "string \<Rightarrow> bool" where
  "http_scheme u =
     (starts_with ''http://'' (map to_lower u) \<or> starts_with ''https://'' (map to_lower u))"

fun str_includes :: "string \<Rightarrow> string \<Rightarrow> bool" where
  "str_includes [] sub = (sub = [])"
| "str_includes (c # cs) sub = (starts_with sub (c # cs) \<or> str_includes cs sub)"

text \<open>\<open>checkConnection\<close> (WebDAVAdapter.ts 239-260).\<close>

definition checkConnection :: "(WebDAVAdapter, unit) js" where
  "checkConnection =
     (\<lambda>s. case wd_config s of
        None \<Rightarrow> js_throw (ErrorObj MsgUrlEmpty) s
      | Some c \<Rightarrow>
          if url c = [] then js_throw (ErrorObj MsgUrlEmpty) s
          else if \<not> http_scheme (url c) then js_throw (ErrorObj MsgUrlScheme) s
          else if str_includes (url c) ''error'' then js_throw (ErrorObj MsgCannotReach) s
          else js_return () s)"

text \<open>\<open>connect\<close> (WebDAVAdapter.ts 187-234).\<close>

definition wd_connect :: "WebDAVConfig \<Rightarrow> (WebDAVAdapter, bool) js" where
  "wd_connect cfg =
     try_catch
       (js_seq (wd_updateStatus (only_status Connecting))
       (js_seq (js_modify (\<lambda>s. s\<lparr>wd_config := Some cfg\<rparr>))
       (js_seq (js_modify (\<lambda>s. s\<lparr>client := Some (url cfg, username cfg, password cfg)\<rparr>))
       (js_seq checkConnection
       (js_seq (wd_updateStatus (only_status Connected))
       (js_seq (triggerEvent ''connect-success'' no_payload)
       (js_return True)))))))
       (\<lambda>error.
          js_seq (wd_updateStatus (status_error (message_or error MsgConnectFailed) error))
         (js_seq (triggerEvent ''connect-error''
                    (error_payload (message_or error MsgConnectFailed) error))
         (js_return False)))"

text \<open>\<open>setupAutoSync\<close> (WebDAVAdapter.ts 420-435); \<open>timer\<close> is the handle that
  \<open>setInterval\<close> returns.\<close>

definition auto_sync_wanted :: "WebDAVConfig option \<Rightarrow> bool" where
  "auto_sync_wanted c =
     (case c of
        None \<Rightarrow> False
      | Some cfg \<Rightarrow>
          autoSync cfg = Some True \<and>
          (case syncInterval cfg of None \<Rightarrow> False | Some n \<Rightarrow> n \<noteq> 0))"

definition setupAutoSync :: "nat \<Rightarrow> (WebDAVAdapter, unit) js" where
  "setupAutoSync timer =
     (\<lambda>s. if \<not> auto_sync_wanted (wd_config s) then js_return () s
           else
             js_seq (case wd_autoSyncTimer s of
                       None \<Rightarrow> js_return ()
                     | Some t \<Rightarrow> do_effect (ClearInterval t))
            (js_seq (do_effect (SetInterval timer))
                    (js_modify (\<lambda>s. s\<lparr>wd_autoSyncTimer := Some timer\<rparr>))) s)"

text \<open>The address of the remote database (WebDAVAdapter.ts 281-282): the URL without one
  trailing slash, then the path, \<open>/sync/db\<close> when the configured path is falsy.\<close>

definition strip_slash :: "string \<Rightarrow> string" where
  "strip_slash u = (if u \<noteq> [] \<and> last u = CHR ''/'' then butlast u else u)"

definition remoteUrl :: "WebDAVConfig \<Rightarrow> string" where
  "remoteUrl c =
     strip_slash (url c) @
     (case dbPath c of None \<Rightarrow> ''/sync/db'' | Some p \<Rightarrow> if p = [] then ''/sync/db'' else p)"

text \<open>The outcomes of the calls \<open>startSync\<close> makes: whether \<open>new PouchDB\<close> throws, the
  handle \<open>localDB.sync\<close> returns or what it throws, and the handle of the timer.\<close>

record wd_sync_env =
  newPouchDB :: "js_exn option"
  syncCall :: "js_exn + nat"
  timerHandle :: nat

text \<open>\<open>startSync\<close> (WebDAVAdapter.ts 266-386). The callbacks it registers on the
  replication handle are \<open>wd_on\<close> below.\<close>

definition wd_startSync :: "nat \<Rightarrow> wd_sync_env \<Rightarrow> (WebDAVAdapter, unit) js" where
  "wd_startSync db env =
     try_catch
       (\<lambda>s. case wd_config s of
          None \<Rightarrow> js_throw (ErrorObj MsgWebDAVNotConfigured) s
        | Some c \<Rightarrow>
            (js_seq (js_modify (\<lambda>s. s\<lparr>wd_localDB := Some db\<rparr>))
            (js_seq (wd_updateStatus (status_progress Syncing (Fin 0)))
            (js_seq (js_await (case newPouchDB env of Some e \<Rightarrow> Inl e | None \<Rightarrow> Inr ()))
            (js_seq (js_modify (\<lambda>s. s\<lparr>remoteDB := Some (remoteUrl c)\<rparr>))
            (js_bind (js_await (syncCall env)) (\<lambda>h.
             js_seq (js_modify (\<lambda>s. s\<lparr>syncHandler := Some h\<rparr>))
                    (js_when (auto_sync_wanted (Some c)) (setupAutoSync (timerHandle env)))))))))
            s)
       (\<lambda>error.
          js_seq (wd_updateStatus (status_error (message_or error MsgSyncFailed) error))
         (js_seq (triggerEvent ''sync-error''
                    (error_payload (message_or error MsgSyncFailed) error))
         (js_throw error)))"

text \<open>The events of the replication handle and the callbacks \<open>startSync\<close> registers for
  them (WebDAVAdapter.ts 293-359).\<close>

datatype replication_event =
    Change "change_info option"
  | PausedEv
  | ActiveEv
  | DeniedEv js_exn
  | CompleteEv
  | ErrorEv js_exn

fun wd_on :: "replication_event \<Rightarrow> (WebDAVAdapter, unit) js" where
  "wd_on (Change info) =
     js_seq (wd_updateStatus (status_progress Syncing (calculateProgress info)))
            (triggerEvent ''sync-progress'' (progress_payload (calculateProgress info)))"
| "wd_on PausedEv =
     js_seq (wd_updateStatus (only_status Paused)) (triggerEvent ''sync-paused'' no_payload)"
| "wd_on ActiveEv =
     js_seq (wd_updateStatus (only_status Syncing)) (triggerEvent ''sync-active'' no_payload)"
| "wd_on (DeniedEv e) =
     js_seq (wd_updateStatus (status_error MsgSyncDenied e))
            (triggerEvent ''sync-denied'' (error_payload MsgSyncDenied e))"
| "wd_on CompleteEv =
     js_seq (wd_updateStatus (status_progress Completed (Fin 100)))
            (triggerEvent ''sync-complete'' no_payload)"
| "wd_on (ErrorEv e) =
     js_seq (wd_updateStatus (status_error MsgSyncError e))
            (triggerEvent ''sync-error'' (error_payload MsgSyncError e))"

text \<open>\<open>triggerSync\<close> (WebDAVAdapter.ts 440-474); \<open>outcome\<close> is what the awaited one-off
  \<open>sync\<close> throws, if anything.\<close>

definition wd_triggerSync :: "js_exn option \<Rightarrow> (WebDAVAdapter, unit) js" where
  "wd_triggerSync outcome =
     (\<lambda>s. if wd_localDB s = None \<or> remoteDB s = None then js_return () s
           else
             try_catch
               (js_seq (wd_updateStatus (status_progress Syncing (Fin 0)))
               (js_seq (js_await (case outcome of Some e \<Rightarrow> Inl e | None \<Rightarrow> Inr ()))
               (js_seq (wd_updateStatus (status_progress Completed (Fin 100)))
                       (triggerEvent ''sync-complete'' no_payload))))
               (\<lambda>error.
                  js_seq (wd_updateStatus (status_error (message_or error MsgSyncFailed) error))
                    (triggerEvent ''sync-error''
                       (error_payload (message_or error MsgSyncFailed) error)))
               s)"

text \<open>The callback of the timer (WebDAVAdapter.ts 429-434).\<close>

definition wd_autoSyncTick :: "js_exn option \<Rightarrow> (WebDAVAdapter, unit) js" where
  "wd_autoSyncTick outcome =
     (\<lambda>s. if status (syncStatus s) \<noteq> Syncing then wd_triggerSync outcome s
           else js_return () s)"

text \<open>\<open>stopSync\<close> (WebDAVAdapter.ts 391-415).\<close>

definition wd_stopSync :: "(WebDAVAdapter, unit) js" where
  "wd_stopSync =
     js_seq (\<lambda>s. case wd_autoSyncTimer s of
                    None \<Rightarrow> js_return () s
                  | Some t \<Rightarrow>
                      js_seq (do_effect (ClearInterval t))
                             (js_modify (\<lambda>s. s\<lparr>wd_autoSyncTimer := None\<rparr>)) s)
    (js_seq (\<lambda>s. case syncHandler s of
                    None \<Rightarrow> js_return () s
                  | Some h \<Rightarrow>
                      js_seq (do_effect CancelReplication)
                             (js_modify (\<lambda>s. s\<lparr>syncHandler := None\<rparr>)) s)
    (js_seq (\<lambda>s. case remoteDB s of
                    None \<Rightarrow> js_return () s
                  | Some r \<Rightarrow>
                      js_seq (do_effect CloseRemote)
                             (js_modify (\<lambda>s. s\<lparr>remoteDB := None\<rparr>)) s)
    (js_seq (wd_updateStatus (status_progress Idle (Fin 0)))
            (triggerEvent ''sync-stopped'' no_payload))))"

section \<open>Sequences of operations\<close>

text \<open>The invariant of the status as the specification words it: \<open>progress\<close> is defined
  only in the states syncing and completed, \<open>error\<close> only in the state error.\<close>

definition spec_invariant :: "SyncStatus \<Rightarrow> bool" where
  "spec_invariant st =
     ((progress st \<noteq> None \<longrightarrow> status st = Syncing \<or> status st = Completed) \<and>
      (error st \<noteq> None \<longrightarrow> status st = Error))"

text \<open>The other direction: in the states syncing and completed \<open>progress\<close> is defined, in
  the state error \<open>error\<close> is.\<close>

definition status_consistent :: "SyncStatus \<Rightarrow> bool" where
  "status_consistent st =
     ((status st = Syncing \<or> status st = Completed \<longrightarrow> progress st \<noteq> None) \<and>
      (status st = Error \<longrightarrow> error st \<noteq> None))"

text \<open>The states of a RemoteStorage adapter after any sequence of calls of its public
  methods and of ticks of its timer, whatever the collaborators answer. A tick is allowed
  in every state, which is more than the timer can do.\<close>

inductive rs_reachable :: "RemoteStorageAdapter \<Rightarrow> bool" where
  rs_reach_new: "rs_reachable (rs_new thr)"
| rs_reach_add: "rs_reachable s \<Longrightarrow> rs_reachable (snd (addEventListener event l s))"
| rs_reach_remove: "rs_reachable s \<Longrightarrow> rs_reachable (snd (removeEventListener event l s))"
| rs_reach_connect: "rs_reachable s \<Longrightarrow> rs_reachable (snd (rs_connect cfg cenv s))"
| rs_reach_start: "rs_reachable s \<Longrightarrow> rs_reachable (snd (rs_startSync db env timer s))"
| rs_reach_tick: "rs_reachable s \<Longrightarrow> rs_reachable (snd (rs_autoSyncTick env s))"
| rs_reach_stop: "rs_reachable s \<Longrightarrow> rs_reachable (snd (rs_stopSync s))"

text \<open>The same for a WebDAV adapter. A callback of the replication handle runs only
  after \<open>startSync\<close> has registered it, which is after line 273 has stored \<open>localDB\<close>;
  nothing resets \<open>localDB\<close>, and a handle may still report after \<open>stopSync\<close> has cancelled
  it, so the callbacks are allowed in every state in which \<open>localDB\<close> is set.\<close>

inductive wd_reachable :: "WebDAVAdapter \<Rightarrow> bool" where
  wd_reach_new: "wd_reachable (wd_new thr)"
| wd_reach_add: "wd_reachable s \<Longrightarrow> wd_reachable (snd (wd_addEventListener event l s))"
| wd_reach_remove: "wd_reachable s \<Longrightarrow> wd_reachable (snd (wd_removeEventListener event l s))"
| wd_reach_connect: "wd_reachable s \<Longrightarrow> wd_reachable (snd (wd_connect cfg s))"
| wd_reach_start: "wd_reachable s \<Longrightarrow> wd_reachable (snd (wd_startSync db env s))"
| wd_reach_on:
    "wd_reachable s \<Longrightarrow> wd_localDB s \<noteq> None \<Longrightarrow> wd_reachable (snd (wd_on ev s))"
| wd_reach_tick: "wd_reachable s \<Longrightarrow> wd_reachable (snd (wd_autoSyncTick outcome s))"
| wd_reach_stop: "wd_reachable s \<Longrightarrow> wd_reachable (snd (wd_stopSync s))"

text \<open>What was defined stays defined: \<open>progress\<close> and \<open>error\<close> of the second status are
  defined when they are in the first.\<close>

definition defined_kept :: "SyncStatus \<Rightarrow> SyncStatus \<Rightarrow> bool" where
  "defined_kept st st' =
     ((progress st \<noteq> None \<longrightarrow> progress st' \<noteq> None) \<and>
      (error st \<noteq> None \<longrightarrow> error st' \<noteq> None))"

text \<open>One operation on an adapter: a call of a public method, a tick of the timer or a
  callback of the replication handle, whatever the collaborators answer.\<close>

inductive rs_step :: "RemoteStorageAdapter \<Rightarrow> RemoteStorageAdapter \<Rightarrow> bool" where
  rs_step_add: "rs_step s (snd (addEventListener event l s))"
| rs_step_remove: "rs_step s (snd (removeEventListener event l s))"
| rs_step_connect: "rs_step s (snd (rs_connect cfg cenv s))"
| rs_step_start: "rs_step s (snd (rs_startSync db env timer s))"
| rs_step_tick: "rs_step s (snd (rs_autoSyncTick env s))"
| rs_step_stop: "rs_step s (snd (rs_stopSync s))"

inductive wd_step :: "WebDAVAdapter \<Rightarrow> WebDAVAdapter \<Rightarrow> bool" where
  wd_step_add: "wd_step s (snd (wd_addEventListener event l s))"
| wd_step_remove: "wd_step s (snd (wd_removeEventListener event l s))"
| wd_step_connect: "wd_step s (snd (wd_connect cfg s))"
| wd_step_start: "wd_step s (snd (wd_startSync db env s))"
| wd_step_on: "wd_step s (snd (wd_on ev s))"
| wd_step_tick: "wd_step s (snd (wd_autoSyncTick outcome s))"
| wd_step_stop: "wd_step s (snd (wd_stopSync s))"

text \<open>The states of an adapter on which \<open>connect\<close> has not been called.\<close>

inductive rs_never_connected :: "RemoteStorageAdapter \<Rightarrow> bool" where
  rs_nc_new: "rs_never_connected (rs_new thr)"
| rs_nc_add: "rs_never_connected s \<Longrightarrow> rs_never_connected (snd (addEventListener event l s))"
| rs_nc_remove:
    "rs_never_connected s \<Longrightarrow> rs_never_connected (snd (removeEventListener event l s))"
| rs_nc_start:
    "rs_never_connected s \<Longrightarrow> rs_never_connected (snd (rs_startSync db env timer s))"
| rs_nc_tick: "rs_never_connected s \<Longrightarrow> rs_never_connected (snd (rs_autoSyncTick env s))"
| rs_nc_stop: "rs_never_connected s \<Longrightarrow> rs_never_connected (snd (rs_stopSync s))"

inductive wd_never_connected :: "WebDAVAdapter \<Rightarrow> bool" where
  wd_nc_new: "wd_never_connected (wd_new thr)"
| wd_nc_add:
    "wd_never_connected s \<Longrightarrow> wd_never_connected (snd (wd_addEventListener event l s))"
| wd_nc_remove:
    "wd_never_connected s \<Longrightarrow> wd_never_connected (snd (wd_removeEventListener event l s))"
| wd_nc_start: "wd_never_connected s \<Longrightarrow> wd_never_connected (snd (wd_startSync db env s))"
| wd_nc_on:
    "wd_never_connected s \<Longrightarrow> wd_localDB s \<noteq> None \<Longrightarrow> wd_never_connected (snd (wd_on ev s))"
| wd_nc_tick:
    "wd_never_connected s \<Longrightarrow> wd_never_connected (snd (wd_autoSyncTick outcome s))"
| wd_nc_stop: "wd_never_connected s \<Longrightarrow> wd_never_connected (snd (wd_stopSync s))"

section \<open>Writes of a reconciliation pass\<close>

text \<open>Whether a call is a write of the document with identifier \<open>i\<close>, to either store or
  to the remote store.\<close>

fun writes_id :: "string \<Rightarrow> effect \<Rightarrow> bool" where
  "writes_id i (PutLocal d) = (doc_id d = i)"
| "writes_id i (PutRemote d) = (doc_id d = i)"
| "writes_id i _ = False"

fun writes_remote_id :: "string \<Rightarrow> effect \<Rightarrow> bool" where
  "writes_remote_id i (PutRemote d) = (doc_id d = i)"
| "writes_remote_id i _ = False"

text \<open>The calls made since the state \<open>s\<close>.\<close>

definition new_effects :: "'a world_scheme \<Rightarrow> 'b world_scheme \<Rightarrow> effect list" where
  "new_effects s s' = drop (length (effects s)) (effects s')"

text \<open>What the local store guarantees of its rows and the remote listing of its
  documents: a row carries the document of its own identifier, and no identifier occurs
  twice.\<close>

definition own_doc :: "row \<Rightarrow> bool" where
  "own_doc r = (case row_doc r of None \<Rightarrow> True | Some d \<Rightarrow> doc_id d = row_id r)"

definition well_formed :: "row list \<Rightarrow> document list \<Rightarrow> bool" where
  "well_formed rows remoteDocs =
     (distinct (map row_id rows) \<and> distinct (map doc_id remoteDocs) \<and> list_all own_doc rows)"

section \<open>Scenarios\<close>

text \<open>Listeners that never throw; a configuration, a discovery and stores as the tests
  of the repository set them up.\<close>

definition quiet :: "nat \<Rightarrow> SyncEventData \<Rightarrow> js_exn option" where
  "quiet = (\<lambda>l d. None)"

definition test_config :: RemoteStorageConfig where
  "test_config =
     \<lparr>userAddress = ''user@example.com'', cfg_token = ''test-token'',
      storageModule = ''documents'', autoSyncInterval = Some 5000\<rparr>"

definition test_info :: RemoteStorageInfo where
  "test_info =
     \<lparr>server = ''https://example.com'', webdavPath = ''/'',
      authEndpoint = ''https://example.com/oauth'', storageTypes = []\<rparr>"

definition connect_ok :: connect_env where
  "connect_ok = \<lparr>discovered = Inr test_info, testResponse = Inr True\<rparr>"

definition connect_refused :: connect_env where
  "connect_refused = \<lparr>discovered = Inr test_info, testResponse = Inr False\<rparr>"

definition empty_stores :: sync_env where
  "empty_stores = \<lparr>remoteListing = Inr [], allDocs = Inr [], putOutcome = (\<lambda>calls x. None)\<rparr>"

text \<open>An adapter that has connected and run one pass to completion.\<close>

definition rs_synced :: RemoteStorageAdapter where
  "rs_synced = snd (rs_startSync 1 empty_stores 7 (snd (rs_connect test_config connect_ok (rs_new quiet))))"

definition wd_env :: wd_sync_env where
  "wd_env = \<lparr>newPouchDB = None, syncCall = Inr 1, timerHandle = 7\<rparr>"

text \<open>One document on each side with the same identifier.\<close>

definition doc_with :: "string \<Rightarrow> string \<Rightarrow> document" where
  "doc_with marker content = \<lparr>doc_id = ''a'', doc_rev = Some marker, body = content\<rparr>"

definition stores_with :: "string \<Rightarrow> string \<Rightarrow> sync_env" where
  "stores_with local_rev remote_rev =
     \<lparr>remoteListing = Inr [doc_with remote_rev ''remote''],
      allDocs = Inr [\<lparr>row_id = ''a'', row_doc = Some (doc_with local_rev ''local'')\<rparr>],
      putOutcome = (\<lambda>calls x. None)\<rparr>"

text \<open>Two listeners on one event, the first of which throws.\<close>

definition first_throws :: "nat \<Rightarrow> SyncEventData \<Rightarrow> js_exn option" where
  "first_throws = (\<lambda>l d. if l = 0 then Some (ErrorObj (MsgOther ''listener error'')) else None)"

definition two_listeners :: RemoteStorageAdapter where
  "two_listeners =
     snd (addEventListener ''test-event'' 1
       (snd (addEventListener ''test-event'' 0 (rs_new first_throws))))"

definition wd_two_listeners :: WebDAVAdapter where
  "wd_two_listeners =
     snd (wd_addEventListener ''sync-paused'' 1
       (snd (wd_addEventListener ''sync-paused'' 0 (wd_new first_throws))))"

text \<open>An adapter whose \<open>connect\<close> returned \<open>false\<close> because the test request was refused, and a
  new adapter with one listener for the stopped event.\<close>

definition rs_failed :: RemoteStorageAdapter where
  "rs_failed = snd (rs_connect test_config connect_refused (rs_new quiet))"

definition rs_listening :: RemoteStorageAdapter where
  "rs_listening = snd (addEventListener ''sync-stopped'' 0 (rs_new quiet))"

text \<open>A remote listing with another document before the one of identifier \<open>a\<close>, and a
  local store that rejects the put of that other document.\<close>

definition other_doc :: document where
  "other_doc = \<lparr>doc_id = ''0'', doc_rev = Some ''1'', body = ''other''\<rparr>"

definition stores_rejecting :: sync_env where
  "stores_rejecting =
     \<lparr>remoteListing = Inr [other_doc, doc_with ''2'' ''remote''],
      allDocs = Inr [\<lparr>row_id = ''a'', row_doc = Some (doc_with ''1'' ''local'')\<rparr>],
      putOutcome = (\<lambda>calls x. if x = PutLocal other_doc
                                 then Some (ErrorObj (MsgOther ''conflict'')) else None)\<rparr>"


section \<open>Invariants of the operations\<close>

text \<open>A proof device: \<open>preserves P m\<close> says that the method \<open>m\<close> leaves a state that
  satisfies \<open>P\<close> when it starts in one, whether it returns or throws.\<close>

definition preserves :: "('s \<Rightarrow> bool) \<Rightarrow> ('s, 'a) js \<Rightarrow> bool" where
  "preserves P m = (\<forall>s. P s \<longrightarrow> P (snd (m s)))"

text \<open>The invariants of the two adapters. For the WebDAV adapter the invariant also says
  that \<open>progress\<close> is defined once \<open>localDB\<close> is set, which is what the callback for the
  event \<open>active\<close> relies on: it sets the status to syncing and names no progress.\<close>

definition rs_ok :: "RemoteStorageAdapter \<Rightarrow> bool" where
  "rs_ok s = status_consistent (adapter_status s)"

definition wd_ok :: "WebDAVAdapter \<Rightarrow> bool" where
  "wd_ok w =
     (status_consistent (syncStatus w) \<and> (wd_localDB w \<noteq> None \<longrightarrow> progress (syncStatus w) \<noteq> None))"

definition wd_started :: "WebDAVAdapter \<Rightarrow> bool" where
  "wd_started w = (wd_ok w \<and> wd_localDB w \<noteq> None)"

text \<open>A proof device: the state \<open>updateStatus\<close> leaves.\<close>

definition status_updated :: "partial_status \<Rightarrow> 'a BaseSyncAdapter_scheme \<Rightarrow> 'a BaseSyncAdapter_scheme" where
  "status_updated u s = snd (updateStatus u s)"

text \<open>What holds of an adapter on which \<open>connect\<close> has not been called: nothing of a
  connection is stored.\<close>

definition rs_blank :: "RemoteStorageAdapter \<Rightarrow> bool" where
  "rs_blank s = (config s = None \<and> remoteInfo s = None \<and> token s = None)"

definition wd_blank :: "WebDAVAdapter \<Rightarrow> bool" where
  "wd_blank w = (wd_config w = None \<and> wd_localDB w = None)"

text \<open>The documents a pass writes when no call on a store is rejected: the remote
  documents that win, in the order of the remote listing, and then the local documents
  that win, in the order of the rows.\<close>

definition pulled :: "row list \<Rightarrow> document list \<Rightarrow> document list" where
  "pulled rows remoteDocs =
     filter (\<lambda>d. remote_wins (find (\<lambda>r. row_id r = doc_id d) rows) d) remoteDocs"

definition pushed_of :: "document list \<Rightarrow> row \<Rightarrow> document list" where
  "pushed_of remoteDocs r =
     (case row_doc r of
        None \<Rightarrow> []
      | Some d \<Rightarrow>
          if truthy (doc_rev d) \<and> local_wins d (find (\<lambda>rd. doc_id rd = row_id r) remoteDocs)
          then [d] else [])"

definition pushed :: "row list \<Rightarrow> document list \<Rightarrow> document list" where
  "pushed rows remoteDocs = concat (map (pushed_of remoteDocs) rows)"

section \<open>The monad\<close>

lemmas js_defs =
  js_return_def js_throw_def js_bind_def js_seq_def try_catch_def js_modify_def js_when_def
  js_await_def

lemma forEach_total:
  assumes "\<And>x s. f x s = (Inr (), g x s)"
  shows "forEach f xs s = (Inr (), fold g xs s)"
proof (induction xs arbitrary: s)
  case Nil
  show ?case by (simp add: js_return_def)
next
  case (Cons x xs)
  have "forEach f (x # xs) s = forEach f xs (g x s)"
    by (simp add: js_seq_def js_bind_def assms [of x s])
  then show ?case by (simp add: Cons.IH)
qed

section \<open>Dispatch\<close>

lemma call_guarded:
  "try_catch (call_listener l d) (\<lambda>err. console_error (entry err)) s
     = (Inr (), notified entry d [l] s)"
  by (simp add: try_catch_def call_listener_def console_error_def js_modify_def notified_def
      listener_errors_def split: option.split)

lemma notified_Cons:
  "notified entry d ls (notified entry d [l] s) = notified entry d (l # ls) s"
  by (simp add: notified_def listener_errors_def)

lemma fold_notified:
  "fold (\<lambda>l. notified entry d [l]) ls s = notified entry d ls s"
proof (induction ls arbitrary: s)
  case Nil
  show ?case by (simp add: notified_def listener_errors_def)
next
  case (Cons l ls)
  show ?case by (simp add: Cons.IH notified_Cons)
qed

lemma forEach_listeners:
  "forEach (\<lambda>l. try_catch (call_listener l d) (\<lambda>err. console_error (entry err))) ls s
     = (Inr (), notified entry d ls s)"
  using forEach_total [of "\<lambda>l. try_catch (call_listener l d) (\<lambda>err. console_error (entry err))"
      "\<lambda>l. notified entry d [l]" ls s]
  by (simp add: call_guarded fold_notified)

lemma dispatchEvent_run:
  "dispatchEvent event data s
     = (Inr (), notified (ListenerError event) (base_eventData event data)
                  (listeners_of (eventListeners s) event) s)"
  by (simp add: dispatchEvent_def forEach_listeners listeners_of_def js_return_def
      notified_def listener_errors_def split: option.split)

lemma triggerEvent_run:
  "triggerEvent event data s
     = (Inr (), notified WebDAVListenerError (wd_eventData event (syncStatus s) data)
                  (listeners_of (wd_eventListeners s) event) s)"
  by (simp add: triggerEvent_def forEach_listeners listeners_of_def js_return_def
      notified_def listener_errors_def split: option.split)

lemma notified_world [simp]:
  "listenerThrows (notified entry d ls s) = listenerThrows s"
  "effects (notified entry d ls s) = effects s"
  "invoked (notified entry d ls s) = invoked s @ map (\<lambda>l. (l, d)) ls"
  "console (notified entry d ls s) = console s @ listener_errors entry (listenerThrows s) d ls"
  by (simp_all add: notified_def)

lemma notified_base [simp]:
  "adapter_status (notified entry d ls s) = adapter_status s"
  "eventListeners (notified entry d ls s) = eventListeners s"
  by (simp_all add: notified_def)

lemma notified_rs [simp]:
  "localDB (notified entry d ls s) = localDB s"
  "config (notified entry d ls s) = config s"
  "autoSyncTimer (notified entry d ls s) = autoSyncTimer s"
  "remoteInfo (notified entry d ls s) = remoteInfo s"
  "token (notified entry d ls s) = token s"
  by (simp_all add: notified_def)

lemma notified_wd [simp]:
  "syncStatus (notified entry d ls w) = syncStatus w"
  "wd_eventListeners (notified entry d ls w) = wd_eventListeners w"
  "client (notified entry d ls w) = client w"
  "wd_config (notified entry d ls w) = wd_config w"
  "wd_localDB (notified entry d ls w) = wd_localDB w"
  "remoteDB (notified entry d ls w) = remoteDB w"
  "syncHandler (notified entry d ls w) = syncHandler w"
  "wd_autoSyncTimer (notified entry d ls w) = wd_autoSyncTimer w"
  by (simp_all add: notified_def)

section \<open>Rounding to a double\<close>

















section \<open>Properties of the progress estimator\<close>














text \<open>C10: with both counters the number 0 the numeric branch is taken and divides 0 by
  0, so the value returned is NaN.\<close>

theorem calculateProgress_zero_counters_NaN:
  "calculateProgress (Some \<lparr>docs_read = JNum (Fin 0), docs_written = JNum (Fin 0)\<rparr>) = NaN"
  by (simp add: calculateProgress_def to_double_def)

section \<open>Status updates\<close>

lemma updateStatus_ok: "fst (updateStatus u s) = Inr ()"
  by (simp add: updateStatus_def js_defs dispatchEvent_run)

lemma updateStatus_base [simp]:
  "adapter_status (snd (updateStatus u s)) = spread (adapter_status s) u"
  "eventListeners (snd (updateStatus u s)) = eventListeners s"
  "listenerThrows (snd (updateStatus u s)) = listenerThrows s"
  "effects (snd (updateStatus u s)) = effects s"
  by (simp_all add: updateStatus_def js_defs dispatchEvent_run)

lemma updateStatus_rs [simp]:
  "localDB (snd (updateStatus u s)) = localDB s"
  "config (snd (updateStatus u s)) = config s"
  "autoSyncTimer (snd (updateStatus u s)) = autoSyncTimer s"
  "remoteInfo (snd (updateStatus u s)) = remoteInfo s"
  "token (snd (updateStatus u s)) = token s"
  by (simp_all add: updateStatus_def js_defs dispatchEvent_run)

lemma updateStatus_silent:
  "p_status u \<noteq> Some Syncing \<Longrightarrow> p_status u \<noteq> Some Error \<Longrightarrow>
   invoked (snd (updateStatus u s)) = invoked s \<and> console (snd (updateStatus u s)) = console s"
  by (simp add: updateStatus_def js_defs)

lemma dispatchEvent_fields [simp]:
  "adapter_status (snd (dispatchEvent event data s)) = adapter_status s"
  "eventListeners (snd (dispatchEvent event data s)) = eventListeners s"
  "listenerThrows (snd (dispatchEvent event data s)) = listenerThrows s"
  "effects (snd (dispatchEvent event data s)) = effects s"
  "localDB (snd (dispatchEvent event data r)) = localDB r"
  "config (snd (dispatchEvent event data r)) = config r"
  "autoSyncTimer (snd (dispatchEvent event data r)) = autoSyncTimer r"
  "remoteInfo (snd (dispatchEvent event data r)) = remoteInfo r"
  "token (snd (dispatchEvent event data r)) = token r"
  by (simp_all add: dispatchEvent_run)

lemma wd_updateStatus_run:
  "wd_updateStatus u s = (Inr (), s\<lparr>syncStatus := spread (syncStatus s) u\<rparr>)"
  by (simp add: wd_updateStatus_def js_modify_def)

section \<open>Listener isolation\<close>

text \<open>
  C8. A dispatch with any listeners registered returns normally, whatever the listeners
  throw: \<open>dispatchEvent\<close> of the base class and \<open>triggerEvent\<close> of the WebDAV adapter
  call every listener registered for the event once, in the order of registration, and
  write one console entry for each listener that threw.
\<close>

theorem dispatch_isolates_listeners:
  "fst (dispatchEvent event data s) = Inr () \<and>
   invoked (snd (dispatchEvent event data s))
     = invoked s @ map (\<lambda>l. (l, base_eventData event data)) (listeners_of (eventListeners s) event) \<and>
   console (snd (dispatchEvent event data s))
     = console s @ listener_errors (ListenerError event) (listenerThrows s)
         (base_eventData event data) (listeners_of (eventListeners s) event) \<and>
   fst (triggerEvent event' data' w) = Inr () \<and>
   invoked (snd (triggerEvent event' data' w))
     = invoked w @ map (\<lambda>l. (l, wd_eventData event' (syncStatus w) data'))
         (listeners_of (wd_eventListeners w) event') \<and>
   console (snd (triggerEvent event' data' w))
     = console w @ listener_errors WebDAVListenerError (listenerThrows w)
         (wd_eventData event' (syncStatus w) data') (listeners_of (wd_eventListeners w) event')"
  by (simp add: dispatchEvent_run triggerEvent_run)

lemma two_listeners_registered:
  "eventListeners two_listeners ''test-event'' = Some [0, 1]"
  "listenerThrows two_listeners = first_throws"
  "invoked two_listeners = []" "console two_listeners = []"
  by (simp_all add: two_listeners_def addEventListener_def js_modify_def rs_new_def set_add_def)

lemma wd_two_listeners_registered:
  "wd_eventListeners wd_two_listeners ''sync-paused'' = Some [0, 1]"
  "listenerThrows wd_two_listeners = first_throws"
  "invoked wd_two_listeners = []" "console wd_two_listeners = []"
  by (simp_all add: wd_two_listeners_def wd_addEventListener_def js_modify_def wd_new_def set_add_def
       wd_event_names_def)

text \<open>The scenario of the specification: of two listeners on one event the first throws;
  both are called, the throw is logged and the dispatch returns.\<close>

theorem dispatch_isolates_listeners_witness:
  "fst (dispatchEvent ''test-event'' no_payload two_listeners) = Inr () \<and>
   invoked (snd (dispatchEvent ''test-event'' no_payload two_listeners))
     = [(0, base_eventData ''test-event'' no_payload), (1, base_eventData ''test-event'' no_payload)] \<and>
   console (snd (dispatchEvent ''test-event'' no_payload two_listeners))
     = [ListenerError ''test-event'' (ErrorObj (MsgOther ''listener error''))] \<and>
   fst (triggerEvent ''sync-paused'' no_payload wd_two_listeners) = Inr () \<and>
   map fst (invoked (snd (triggerEvent ''sync-paused'' no_payload wd_two_listeners))) = [0, 1] \<and>
   console (snd (triggerEvent ''sync-paused'' no_payload wd_two_listeners))
     = [WebDAVListenerError (ErrorObj (MsgOther ''listener error''))]"
  using dispatch_isolates_listeners [of "''test-event''" no_payload two_listeners
      "''sync-paused''" no_payload wd_two_listeners]
  by (simp add: two_listeners_registered wd_two_listeners_registered listeners_of_def
      listener_errors_def first_throws_def)

section \<open>Status literals\<close>

lemma spread_simps [simp]:
  "status (spread st u) = (case p_status u of None \<Rightarrow> status st | Some v \<Rightarrow> v)"
  "progress (spread st u) = (case p_progress u of None \<Rightarrow> progress st | Some v \<Rightarrow> v)"
  "error (spread st u) = (case p_error u of None \<Rightarrow> error st | Some v \<Rightarrow> v)"
  by (simp_all add: spread_def)

lemma literal_simps [simp]:
  "p_status (only_status x) = Some x" "p_progress (only_status x) = None"
  "p_error (only_status x) = None"
  "p_status (status_progress x p) = Some x" "p_progress (status_progress x p) = Some (Some p)"
  "p_error (status_progress x p) = None"
  "p_status (status_error m e) = Some Error" "p_progress (status_error m e) = None"
  "p_error (status_error m e) = Some (Some \<lparr>message = m, details = e\<rparr>)"
  by (simp_all add: only_status_def status_progress_def status_error_def)

section \<open>stopSync\<close>

lemma rs_stopSync_ok: "fst (rs_stopSync s) = Inr ()"
  by (simp add: rs_stopSync_def js_defs do_effect_def updateStatus_def dispatchEvent_run
      split: option.split)

lemma rs_stopSync_status:
  "adapter_status (snd (rs_stopSync s)) = spread (adapter_status s) (only_status Idle)"
  by (simp add: rs_stopSync_def js_defs do_effect_def updateStatus_def dispatchEvent_run
      split: option.split)

lemma rs_stopSync_invoked:
  "invoked (snd (rs_stopSync s))
     = invoked s @ map (\<lambda>l. (l, base_eventData ''sync-stopped'' no_payload))
         (listeners_of (eventListeners s) ''sync-stopped'')"
  by (simp add: rs_stopSync_def js_defs do_effect_def updateStatus_def dispatchEvent_run
      split: option.split)

lemma rs_stopSync_fields [simp]:
  "eventListeners (snd (rs_stopSync s)) = eventListeners s"
  "listenerThrows (snd (rs_stopSync s)) = listenerThrows s"
  "autoSyncTimer (snd (rs_stopSync s)) = None"
  "config (snd (rs_stopSync s)) = config s"
  "remoteInfo (snd (rs_stopSync s)) = remoteInfo s"
  "token (snd (rs_stopSync s)) = token s"
  "localDB (snd (rs_stopSync s)) = localDB s"
  by (simp_all add: rs_stopSync_def js_defs do_effect_def updateStatus_def dispatchEvent_run
      split: option.split)

lemma wd_stopSync_ok: "fst (wd_stopSync w) = Inr ()"
  by (simp add: wd_stopSync_def js_defs do_effect_def wd_updateStatus_def triggerEvent_run
      split: option.split)

lemma wd_stopSync_status:
  "syncStatus (snd (wd_stopSync w)) = spread (syncStatus w) (status_progress Idle (Fin 0))"
  by (simp add: wd_stopSync_def js_defs do_effect_def wd_updateStatus_def triggerEvent_run
      split: option.split)

lemma wd_stopSync_invoked:
  "invoked (snd (wd_stopSync w))
     = invoked w @ map (\<lambda>l. (l, wd_eventData ''sync-stopped''
           (spread (syncStatus w) (status_progress Idle (Fin 0))) no_payload))
         (listeners_of (wd_eventListeners w) ''sync-stopped'')"
  by (simp add: wd_stopSync_def js_defs do_effect_def wd_updateStatus_def triggerEvent_run
      split: option.split)

lemma wd_stopSync_fields [simp]:
  "wd_eventListeners (snd (wd_stopSync w)) = wd_eventListeners w"
  "listenerThrows (snd (wd_stopSync w)) = listenerThrows w"
  "wd_autoSyncTimer (snd (wd_stopSync w)) = None"
  "syncHandler (snd (wd_stopSync w)) = None"
  "remoteDB (snd (wd_stopSync w)) = None"
  "wd_config (snd (wd_stopSync w)) = wd_config w"
  "wd_localDB (snd (wd_stopSync w)) = wd_localDB w"
  by (simp_all add: wd_stopSync_def js_defs do_effect_def wd_updateStatus_def triggerEvent_run
      split: option.split)

text \<open>
  C6, as amended. \<open>stopSync\<close> leaves the status idle from every state, so two calls in
  a row both do; and every call dispatches the stopped event, to each listener registered
  for it once, whether or not the adapter was running: neither adapter keeps a flag that
  tells a running adapter from an idle one.
\<close>

theorem stopSync_always_dispatches:
  "status (adapter_status (snd (rs_stopSync s))) = Idle \<and>
   status (adapter_status (snd (rs_stopSync (snd (rs_stopSync s))))) = Idle \<and>
   invoked (snd (rs_stopSync s))
     = invoked s @ map (\<lambda>l. (l, base_eventData ''sync-stopped'' no_payload))
         (listeners_of (eventListeners s) ''sync-stopped'') \<and>
   status (syncStatus (snd (wd_stopSync w))) = Idle \<and>
   status (syncStatus (snd (wd_stopSync (snd (wd_stopSync w))))) = Idle \<and>
   invoked (snd (wd_stopSync w))
     = invoked w @ map (\<lambda>l. (l, wd_eventData ''sync-stopped''
           (spread (syncStatus w) (status_progress Idle (Fin 0))) no_payload))
         (listeners_of (wd_eventListeners w) ''sync-stopped'')"
  by (simp add: rs_stopSync_status wd_stopSync_status rs_stopSync_invoked wd_stopSync_invoked)

lemma rs_listening_fields:
  "eventListeners rs_listening ''sync-stopped'' = Some [0]"
  "invoked rs_listening = []"
  "adapter_status rs_listening = \<lparr>status = Idle, progress = None, error = None\<rparr>"
  by (simp_all add: rs_listening_def addEventListener_def js_modify_def rs_new_def set_add_def)

theorem stopSync_always_dispatches_witness:
  "status (adapter_status (snd (rs_stopSync rs_listening))) = Idle \<and>
   invoked (snd (rs_stopSync rs_listening)) = [(0, base_eventData ''sync-stopped'' no_payload)] \<and>
   status (syncStatus (snd (wd_stopSync (wd_new quiet)))) = Idle \<and>
   invoked (snd (wd_stopSync (wd_new quiet))) = []"
  using stopSync_always_dispatches [of rs_listening "wd_new quiet"]
  by (simp add: rs_listening_fields listeners_of_def wd_new_def wd_event_names_def)

text \<open>C6 as the specification words it fails on a new adapter with one listener: the
  adapter is idle and has dispatched nothing, a call of \<open>stopSync\<close> dispatches the stopped
  event, and a second call dispatches it again.\<close>

theorem stopSync_idle_redispatches:
  "status (adapter_status rs_listening) = Idle \<and>
   invoked rs_listening = [] \<and>
   status (adapter_status (snd (rs_stopSync rs_listening))) = Idle \<and>
   invoked (snd (rs_stopSync rs_listening)) = [(0, base_eventData ''sync-stopped'' no_payload)] \<and>
   invoked (snd (rs_stopSync (snd (rs_stopSync rs_listening))))
     = [(0, base_eventData ''sync-stopped'' no_payload),
        (0, base_eventData ''sync-stopped'' no_payload)]"
  by (simp add: rs_stopSync_status rs_stopSync_invoked rs_listening_fields listeners_of_def)

section \<open>The state after a status update\<close>

lemma updateStatus_run: "updateStatus u s = (Inr (), status_updated u s)"
  using updateStatus_ok [of u s] by (cases "updateStatus u s") (simp add: status_updated_def)

lemma status_updated_base [simp]:
  "adapter_status (status_updated u s) = spread (adapter_status s) u"
  "eventListeners (status_updated u s) = eventListeners s"
  "listenerThrows (status_updated u s) = listenerThrows s"
  "effects (status_updated u s) = effects s"
  by (simp_all add: status_updated_def)

lemma status_updated_rs [simp]:
  "localDB (status_updated u r) = localDB r"
  "config (status_updated u r) = config r"
  "autoSyncTimer (status_updated u r) = autoSyncTimer r"
  "remoteInfo (status_updated u r) = remoteInfo r"
  "token (status_updated u r) = token r"
  by (simp_all add: status_updated_def)

lemmas run_simps = js_defs updateStatus_run dispatchEvent_run

section \<open>Preservation rules\<close>

lemma preservesD: "preserves P m \<Longrightarrow> P s \<Longrightarrow> P (snd (m s))"
  by (simp add: preserves_def)

lemma preserves_return: "preserves P (js_return a)"
  by (simp add: preserves_def js_return_def)

lemma preserves_throw: "preserves P (js_throw e)"
  by (simp add: preserves_def js_throw_def)

lemma preserves_await: "preserves P (js_await r)"
  by (simp add: preserves_def js_await_def)

lemma preserves_modify: "(\<And>s. P s \<Longrightarrow> P (f s)) \<Longrightarrow> preserves P (js_modify f)"
  by (simp add: preserves_def js_modify_def)

lemma preserves_bind:
  "preserves P m \<Longrightarrow> (\<And>a. preserves P (f a)) \<Longrightarrow> preserves P (js_bind m f)"
  by (auto simp: preserves_def js_bind_def split: prod.splits sum.splits)

lemma preserves_seq: "preserves P m \<Longrightarrow> preserves P n \<Longrightarrow> preserves P (js_seq m n)"
  by (simp add: js_seq_def preserves_bind)

lemma preserves_try:
  "preserves P m \<Longrightarrow> (\<And>e. preserves P (h e)) \<Longrightarrow> preserves P (try_catch m h)"
  by (auto simp: preserves_def try_catch_def split: prod.splits sum.splits)

lemma preserves_when: "preserves P m \<Longrightarrow> preserves P (js_when b m)"
  by (simp add: js_when_def preserves_return)

lemma preserves_if:
  "preserves P m \<Longrightarrow> preserves P n \<Longrightarrow> preserves P (\<lambda>s. if c s then m s else n s)"
  by (simp add: preserves_def)

lemma preserves_option:
  "preserves P m \<Longrightarrow> (\<And>x. preserves P (n x)) \<Longrightarrow>
   preserves P (\<lambda>s. case g s of None \<Rightarrow> m s | Some x \<Rightarrow> n x s)"
  by (simp add: preserves_def split: option.split)

lemma preserves_forEach: "(\<And>x. x \<in> set xs \<Longrightarrow> preserves P (f x)) \<Longrightarrow> preserves P (forEach f xs)"
  by (induction xs) (simp_all add: preserves_return preserves_seq)

lemmas preserves_intros =
  preserves_return preserves_throw preserves_await preserves_bind preserves_seq preserves_try
  preserves_when preserves_if preserves_option

lemma spread_consistent:
  "status_consistent st \<Longrightarrow> status_consistent (spread st (only_status Connecting))"
  "status_consistent st \<Longrightarrow> status_consistent (spread st (only_status Connected))"
  "status_consistent st \<Longrightarrow> status_consistent (spread st (only_status Idle))"
  "status_consistent st \<Longrightarrow> status_consistent (spread st (only_status Paused))"
  "status_consistent st \<Longrightarrow> status_consistent (spread st (status_progress Syncing p))"
  "status_consistent st \<Longrightarrow> status_consistent (spread st (status_progress Completed p))"
  "status_consistent st \<Longrightarrow> status_consistent (spread st (status_progress Idle p))"
  "status_consistent st \<Longrightarrow> status_consistent (spread st (status_error m e))"
  by (auto simp: status_consistent_def)

lemma rs_ok_updateStatus:
  "(\<And>st. status_consistent st \<Longrightarrow> status_consistent (spread st u)) \<Longrightarrow>
   preserves rs_ok (updateStatus u)"
  by (simp add: preserves_def rs_ok_def)

lemma rs_ok_dispatchEvent: "preserves rs_ok (dispatchEvent event data)"
  by (simp add: preserves_def rs_ok_def)

lemma rs_ok_world:
  "preserves rs_ok (store_call env x)"
  "preserves rs_ok (do_effect x)"
  "preserves rs_ok (console_error entry)"
  by (simp_all add: preserves_def rs_ok_def store_call_def do_effect_def console_error_def
      js_modify_def)

lemma rs_ok_loops:
  "preserves rs_ok (syncRemoteToLocal env rows remoteDocs)"
  "preserves rs_ok (syncLocalToRemote env rows remoteDocs)"
  unfolding syncRemoteToLocal_def syncLocalToRemote_def
  by (rule preserves_forEach, simp add: preserves_return preserves_when rs_ok_world
        split: option.split)+

lemma rs_ok_triggerSync: "preserves rs_ok (rs_triggerSync env)"
  unfolding rs_triggerSync_def listRemoteDocuments_def
  by (intro preserves_intros rs_ok_updateStatus rs_ok_dispatchEvent rs_ok_loops
        spread_consistent)

lemma rs_ok_connect: "preserves rs_ok (rs_connect cfg env)"
  unfolding rs_connect_def
  by (intro preserves_intros rs_ok_updateStatus rs_ok_dispatchEvent spread_consistent
        preserves_modify)
     (simp_all add: rs_ok_def)

lemma rs_ok_startSync: "preserves rs_ok (rs_startSync db env timer)"
  unfolding rs_startSync_def
  by (intro preserves_intros rs_ok_triggerSync rs_ok_world preserves_modify
        preserves_option [where g = "\<lambda>s. autoSyncInterval c" for c])
     (simp_all add: rs_ok_def)

lemma rs_ok_tick: "preserves rs_ok (rs_autoSyncTick env)"
  unfolding rs_autoSyncTick_def
  by (intro preserves_intros rs_ok_triggerSync rs_ok_world rs_ok_updateStatus spread_consistent)

lemma rs_ok_stopSync: "preserves rs_ok rs_stopSync"
  unfolding rs_stopSync_def
  by (intro preserves_intros rs_ok_world rs_ok_updateStatus rs_ok_dispatchEvent
        spread_consistent preserves_modify)
     (simp_all add: rs_ok_def)

lemma rs_ok_listeners:
  "preserves rs_ok (addEventListener event l)"
  "preserves rs_ok (removeEventListener event l)"
  by (simp_all add: preserves_def rs_ok_def addEventListener_def removeEventListener_def
      js_modify_def split: option.split)

lemma rs_reachable_ok: "rs_reachable s \<Longrightarrow> rs_ok s"
proof (induction rule: rs_reachable.induct)
  case (rs_reach_new thr)
  show ?case by (simp add: rs_ok_def rs_new_def status_consistent_def)
qed (auto intro: preservesD rs_ok_listeners rs_ok_connect rs_ok_startSync rs_ok_tick rs_ok_stopSync)


lemma wd_ok_updateStatus:
  "(\<And>st. status_consistent st \<Longrightarrow> status_consistent (spread st u)) \<Longrightarrow>
   p_progress u \<noteq> Some None \<Longrightarrow> preserves wd_ok (wd_updateStatus u)"
  by (auto simp: preserves_def wd_ok_def wd_updateStatus_def js_modify_def split: option.split)

lemma wd_started_updateStatus:
  "(\<And>st. progress st \<noteq> None \<Longrightarrow> status_consistent st \<Longrightarrow> status_consistent (spread st u)) \<Longrightarrow>
   p_progress u \<noteq> Some None \<Longrightarrow> preserves wd_started (wd_updateStatus u)"
  by (auto simp: preserves_def wd_started_def wd_ok_def wd_updateStatus_def js_modify_def
      split: option.split)

lemma wd_triggerEvent_keeps:
  "preserves wd_ok (triggerEvent event data)"
  "preserves wd_started (triggerEvent event data)"
  by (simp_all add: preserves_def wd_ok_def wd_started_def triggerEvent_run)

lemma wd_ok_effect: "preserves wd_ok (do_effect x)"
  by (simp add: preserves_def wd_ok_def do_effect_def js_modify_def)

lemma spread_active:
  "progress st \<noteq> None \<Longrightarrow> status_consistent st \<Longrightarrow> status_consistent (spread st (only_status Syncing))"
  by (auto simp: status_consistent_def)

lemma wd_started_on: "preserves wd_started (wd_on ev)"
  by (cases ev)
     (auto intro!: preserves_seq wd_started_updateStatus wd_triggerEvent_keeps
        spread_consistent spread_active)

lemma wd_ok_connect: "preserves wd_ok (wd_connect cfg)"
  unfolding wd_connect_def checkConnection_def
  by (intro preserves_intros wd_ok_updateStatus wd_triggerEvent_keeps spread_consistent
        preserves_modify preserves_option [where g = wd_config])
     (simp_all add: wd_ok_def)

lemma wd_ok_triggerSync: "preserves wd_ok (wd_triggerSync outcome)"
  unfolding wd_triggerSync_def
  by (intro preserves_intros wd_ok_updateStatus wd_triggerEvent_keeps spread_consistent)
     simp_all

lemma wd_ok_tick: "preserves wd_ok (wd_autoSyncTick outcome)"
  unfolding wd_autoSyncTick_def
  by (intro preserves_intros wd_ok_triggerSync)

lemma wd_ok_stopSync: "preserves wd_ok wd_stopSync"
  unfolding wd_stopSync_def
  by (intro preserves_intros wd_ok_updateStatus wd_triggerEvent_keeps wd_ok_effect
        spread_consistent preserves_modify)
     (simp_all add: wd_ok_def)

lemma wd_ok_listeners:
  "preserves wd_ok (wd_addEventListener event l)"
  "preserves wd_ok (wd_removeEventListener event l)"
  by (simp_all add: preserves_def wd_ok_def wd_addEventListener_def wd_removeEventListener_def
      js_modify_def split: option.split)

lemma wd_ok_startSync: "preserves wd_ok (wd_startSync db env)"
  by (auto simp: preserves_def wd_ok_def wd_startSync_def js_defs wd_updateStatus_def
      triggerEvent_run setupAutoSync_def do_effect_def spread_consistent
      split: option.splits sum.splits if_splits)

lemma wd_reachable_ok: "wd_reachable w \<Longrightarrow> wd_ok w"
proof (induction rule: wd_reachable.induct)
  case (wd_reach_new thr)
  show ?case by (simp add: wd_ok_def wd_new_def status_consistent_def)
next
  case (wd_reach_on s ev)
  then have "wd_started s" by (simp add: wd_started_def)
  then have "wd_started (snd (wd_on ev s))" by (rule preservesD [OF wd_started_on])
  then show ?case by (simp add: wd_started_def)
qed (auto intro: preservesD wd_ok_listeners wd_ok_connect wd_ok_startSync wd_ok_tick wd_ok_stopSync)

section \<open>The scenarios, evaluated\<close>

lemma rs_connected_fields:
  "adapter_status (snd (rs_connect test_config connect_ok (rs_new quiet)))
     = \<lparr>status = Connected, progress = None, error = None\<rparr>"
  "config (snd (rs_connect test_config connect_ok (rs_new quiet))) = Some test_config"
  "remoteInfo (snd (rs_connect test_config connect_ok (rs_new quiet))) = Some test_info"
  "token (snd (rs_connect test_config connect_ok (rs_new quiet)))
     = Some \<lparr>accessToken = ''test-token'', tokenType = ''Bearer''\<rparr>"
  "fst (rs_connect test_config connect_ok (rs_new quiet)) = Inr True"
  by (simp_all add: rs_connect_def js_defs updateStatus_def dispatchEvent_def rs_new_def
      test_config_def connect_ok_def spread_def only_status_def)

lemma rs_synced_fields:
  "adapter_status rs_synced = \<lparr>status = Completed, progress = Some (Fin 100), error = None\<rparr>"
  "autoSyncTimer rs_synced = Some 7"
  "effects rs_synced = [SetInterval 7]"
  by (simp_all add: rs_synced_def rs_startSync_def rs_triggerSync_def listRemoteDocuments_def
      syncRemoteToLocal_def syncLocalToRemote_def rs_connect_def js_defs updateStatus_def
      dispatchEvent_def rs_new_def do_effect_def
      test_config_def connect_ok_def empty_stores_def spread_def only_status_def
      status_progress_def)

lemma rs_synced_reachable: "rs_reachable (snd (rs_stopSync rs_synced))"
  unfolding rs_synced_def by (intro rs_reachable.intros)

section \<open>stopSync and the stored progress\<close>

text \<open>
  C7. The specification has \<open>stopSync\<close> leave the status idle with the progress cleared.
  \<open>stopSync\<close> of the RemoteStorage adapter cancels the timer and sets the status to idle,
  and leaves \<open>progress\<close> as it was: after a completed pass the status is idle with
  progress 100. \<open>stopSync\<close> of the WebDAV adapter stores progress 0.
\<close>

theorem rs_stopSync_keeps_stale_progress:
  "adapter_status rs_synced = \<lparr>status = Completed, progress = Some (Fin 100), error = None\<rparr> \<and>
   adapter_status (snd (rs_stopSync rs_synced))
     = \<lparr>status = Idle, progress = Some (Fin 100), error = None\<rparr> \<and>
   progress (adapter_status (snd (rs_stopSync s))) = progress (adapter_status s) \<and>
   autoSyncTimer (snd (rs_stopSync s)) = None \<and>
   progress (syncStatus (snd (wd_stopSync w))) = Some (Fin 0)"
  by (simp add: rs_stopSync_status wd_stopSync_status rs_synced_fields spread_def)

section \<open>Frame of a status update\<close>

lemma rs_failed_status:
  "adapter_status rs_failed
     = \<lparr>status = Error, progress = None,
        error = Some \<lparr>message = MsgConnectionTestFailed,
                      details = ErrorObj MsgConnectionTestFailed\<rparr>\<rparr>"
  by (simp add: rs_failed_def rs_connect_def js_defs updateStatus_def dispatchEvent_def
      rs_new_def test_config_def connect_refused_def spread_def)

lemma rs_connect_success_status:
  "fst (rs_connect cfg env s) = Inr True \<Longrightarrow>
   adapter_status (snd (rs_connect cfg env s))
     = spread (spread (adapter_status s) (only_status Connecting)) (only_status Connected)"
  by (auto simp: rs_connect_def run_simps split: sum.splits if_splits)

text \<open>
  C9. \<open>updateStatus\<close> of the base class and of the WebDAV adapter store the spread of the
  old status and the update, so a field the update does not name keeps its value. An
  error stored by a failed operation is therefore still there after an update to
  connecting, connected or idle, after \<open>stopSync\<close>, and after a later \<open>connect\<close> that
  succeeds.
\<close>

theorem updateStatus_frame:
  "adapter_status (snd (updateStatus u s)) = spread (adapter_status s) u \<and>
   syncStatus (snd (wd_updateStatus u w)) = spread (syncStatus w) u \<and>
   (p_status u = None \<longrightarrow> status (spread st u) = status st) \<and>
   (p_progress u = None \<longrightarrow> progress (spread st u) = progress st) \<and>
   (p_error u = None \<longrightarrow> error (spread st u) = error st) \<and>
   error (adapter_status (snd (updateStatus (only_status Connecting) s))) = error (adapter_status s) \<and>
   error (adapter_status (snd (updateStatus (only_status Connected) s))) = error (adapter_status s) \<and>
   error (adapter_status (snd (updateStatus (only_status Idle) s))) = error (adapter_status s) \<and>
   error (adapter_status (snd (rs_stopSync r))) = error (adapter_status r) \<and>
   (fst (rs_connect cfg env r) = Inr True \<longrightarrow>
      error (adapter_status (snd (rs_connect cfg env r))) = error (adapter_status r))"
  by (simp add: wd_updateStatus_run rs_stopSync_status rs_connect_success_status)

theorem updateStatus_frame_witness:
  "error (adapter_status (snd (updateStatus (only_status Idle) rs_failed)))
     = Some \<lparr>message = MsgConnectionTestFailed, details = ErrorObj MsgConnectionTestFailed\<rparr> \<and>
   status (adapter_status (snd (updateStatus (only_status Idle) rs_failed))) = Idle \<and>
   adapter_status
     (snd (updateStatus \<lparr>p_status = None, p_progress = Some (Some (Fin 10)), p_error = None\<rparr>
        rs_failed))
     = \<lparr>status = Error, progress = Some (Fin 10),
        error = Some \<lparr>message = MsgConnectionTestFailed,
                      details = ErrorObj MsgConnectionTestFailed\<rparr>\<rparr> \<and>
   fst (rs_connect test_config connect_ok rs_failed) = Inr True \<and>
   adapter_status (snd (rs_connect test_config connect_ok rs_failed))
     = \<lparr>status = Connected, progress = None,
        error = Some \<lparr>message = MsgConnectionTestFailed,
                      details = ErrorObj MsgConnectionTestFailed\<rparr>\<rparr>"
proof -
  have ok: "fst (rs_connect test_config connect_ok rs_failed) = Inr True"
    by (simp add: rs_connect_def run_simps test_config_def connect_ok_def)
  show ?thesis
    using ok
      updateStatus_frame [of "only_status Idle" rs_failed _ _ rs_failed test_config connect_ok]
      updateStatus_frame
        [of "\<lparr>p_status = None, p_progress = Some (Some (Fin 10)), p_error = None\<rparr>" rs_failed _
          "adapter_status rs_failed"]
    by (simp add: rs_failed_status rs_connect_success_status spread_def)
qed

section \<open>startSync before connect\<close>

lemma rs_blank_steps:
  "preserves rs_blank (updateStatus u)"
  "preserves rs_blank (dispatchEvent event data)"
  "preserves rs_blank (console_error entry)"
  "preserves rs_blank (do_effect x)"
  "preserves rs_blank (addEventListener event l)"
  "preserves rs_blank (removeEventListener event l)"
  by (simp_all add: preserves_def rs_blank_def updateStatus_run dispatchEvent_run
      console_error_def do_effect_def addEventListener_def removeEventListener_def js_modify_def
      split: option.split)

lemma rs_blank_startSync: "rs_blank s \<Longrightarrow> rs_startSync db env timer s = (Inl (ErrorObj MsgConnectFirst), s)"
  by (simp add: rs_blank_def rs_startSync_def js_throw_def)

lemma rs_blank_triggerSync: "rs_blank s \<Longrightarrow> rs_triggerSync env s = (Inl (ErrorObj MsgNotConnected), s)"
  by (simp add: rs_blank_def rs_triggerSync_def js_throw_def)

lemma rs_blank_tick: "preserves rs_blank (rs_autoSyncTick env)"
  by (simp add: preserves_def rs_autoSyncTick_def try_catch_def rs_blank_triggerSync)
     (simp add: rs_blank_def js_seq_def js_bind_def console_error_def js_modify_def
        updateStatus_run)

lemma rs_blank_stopSync: "preserves rs_blank rs_stopSync"
  by (simp add: preserves_def rs_blank_def)

lemma rs_never_connected_blank: "rs_never_connected s \<Longrightarrow> rs_blank s"
proof (induction rule: rs_never_connected.induct)
  case (rs_nc_new thr)
  show ?case by (simp add: rs_blank_def rs_new_def)
next
  case (rs_nc_start s db env timer)
  then show ?case by (simp add: rs_blank_startSync)
qed (auto intro: preservesD rs_blank_steps rs_blank_tick rs_blank_stopSync)

lemma wd_blank_startSync:
  "wd_config w = None \<Longrightarrow>
   wd_startSync db env w
     = (Inl (ErrorObj MsgWebDAVNotConfigured),
        notified WebDAVListenerError
          (wd_eventData ''sync-error''
             (spread (syncStatus w)
                (status_error MsgWebDAVNotConfigured (ErrorObj MsgWebDAVNotConfigured)))
             (error_payload MsgWebDAVNotConfigured (ErrorObj MsgWebDAVNotConfigured)))
          (listeners_of (wd_eventListeners w) ''sync-error'')
          (w\<lparr>syncStatus := spread (syncStatus w)
                (status_error MsgWebDAVNotConfigured (ErrorObj MsgWebDAVNotConfigured))\<rparr>))"
  by (simp add: wd_startSync_def js_defs wd_updateStatus_run triggerEvent_run)

lemma wd_blank_steps:
  "preserves wd_blank (wd_addEventListener event l)"
  "preserves wd_blank (wd_removeEventListener event l)"
  "preserves wd_blank (wd_startSync db env)"
  "preserves wd_blank (wd_autoSyncTick outcome)"
  "preserves wd_blank wd_stopSync"
  by (simp_all add: preserves_def wd_blank_def wd_addEventListener_def
      wd_removeEventListener_def js_modify_def wd_blank_startSync wd_autoSyncTick_def
      wd_triggerSync_def js_return_def split: option.split)

lemma wd_never_connected_blank: "wd_never_connected w \<Longrightarrow> wd_blank w"
proof (induction rule: wd_never_connected.induct)
  case (wd_nc_new thr)
  show ?case by (simp add: wd_blank_def wd_new_def)
next
  case (wd_nc_on s ev)
  then show ?case by (simp add: wd_blank_def)
qed (auto intro: preservesD wd_blank_steps)

text \<open>
  C2, as amended. On an adapter on which \<open>connect\<close> has not been called, \<open>startSync\<close>
  fails with the precondition error. The RemoteStorage adapter throws before it changes
  anything, so the whole state, the status with it, is as before the call; this holds
  whenever \<open>config\<close>, \<open>remoteInfo\<close> or \<open>token\<close> is not set. The WebDAV adapter throws
  inside its \<open>try\<close> block: the \<open>catch\<close> block stores the status error with the
  precondition error, the other fields of the status as they were, dispatches the event
  \<open>sync-error\<close> and throws the error again.
\<close>

theorem startSync_before_connect:
  "(rs_never_connected s \<longrightarrow>
      rs_startSync db env timer s = (Inl (ErrorObj MsgConnectFirst), s)) \<and>
   (config r = None \<or> remoteInfo r = None \<or> token r = None \<longrightarrow>
      rs_startSync db env timer r = (Inl (ErrorObj MsgConnectFirst), r)) \<and>
   (wd_never_connected w \<longrightarrow>
      fst (wd_startSync db' env' w) = Inl (ErrorObj MsgWebDAVNotConfigured) \<and>
      syncStatus (snd (wd_startSync db' env' w))
        = spread (syncStatus w)
            (status_error MsgWebDAVNotConfigured (ErrorObj MsgWebDAVNotConfigured)) \<and>
      invoked (snd (wd_startSync db' env' w))
        = invoked w @
          map (\<lambda>l. (l, wd_eventData ''sync-error''
                 (spread (syncStatus w)
                    (status_error MsgWebDAVNotConfigured (ErrorObj MsgWebDAVNotConfigured)))
                 (error_payload MsgWebDAVNotConfigured (ErrorObj MsgWebDAVNotConfigured))))
            (listeners_of (wd_eventListeners w) ''sync-error''))"
proof -
  have "rs_startSync db env timer s = (Inl (ErrorObj MsgConnectFirst), s)"
    if "rs_never_connected s"
    using that by (simp add: rs_never_connected_blank rs_blank_startSync)
  moreover have "rs_startSync db env timer r = (Inl (ErrorObj MsgConnectFirst), r)"
    if "config r = None \<or> remoteInfo r = None \<or> token r = None"
    using that by (auto simp: rs_startSync_def js_throw_def)
  moreover have "wd_config w = None" if "wd_never_connected w"
    using wd_never_connected_blank [OF that] by (simp add: wd_blank_def)
  ultimately show ?thesis by (simp add: wd_blank_startSync)
qed

theorem startSync_before_connect_witness:
  "rs_never_connected (snd (rs_stopSync (rs_new quiet))) \<and>
   fst (rs_startSync 1 empty_stores 7 (snd (rs_stopSync (rs_new quiet))))
     = Inl (ErrorObj MsgConnectFirst) \<and>
   adapter_status (snd (rs_startSync 1 empty_stores 7 (snd (rs_stopSync (rs_new quiet)))))
     = adapter_status (snd (rs_stopSync (rs_new quiet))) \<and>
   wd_never_connected (wd_new quiet) \<and>
   fst (wd_startSync 1 wd_env (wd_new quiet)) = Inl (ErrorObj MsgWebDAVNotConfigured) \<and>
   status (syncStatus (snd (wd_startSync 1 wd_env (wd_new quiet)))) = Error"
proof -
  have a: "rs_never_connected (snd (rs_stopSync (rs_new quiet)))"
    by (intro rs_never_connected.intros)
  have b: "wd_never_connected (wd_new quiet)"
    by (rule wd_nc_new)
  show ?thesis
    using a b
      startSync_before_connect [of "snd (rs_stopSync (rs_new quiet))" 1 empty_stores 7
        "rs_new quiet" "wd_new quiet" 1 wd_env]
    by simp
qed

text \<open>C2 as the specification words it fails twice. On a new WebDAV adapter \<open>startSync\<close>
  fails with the precondition error and the status after the call is not the status
  before it. On a RemoteStorage adapter whose \<open>connect\<close> returned \<open>false\<close> because the
  test request was refused, \<open>startSync\<close> does not fail: \<open>connect\<close> had stored the
  configuration, the server information and the token before the test.\<close>

theorem startSync_unconnected_diverges:
  "fst (wd_startSync 1 wd_env (wd_new quiet)) = Inl (ErrorObj MsgWebDAVNotConfigured) \<and>
   syncStatus (wd_new quiet) = \<lparr>status = Idle, progress = None, error = None\<rparr> \<and>
   syncStatus (snd (wd_startSync 1 wd_env (wd_new quiet)))
     = \<lparr>status = Error, progress = None,
        error = Some \<lparr>message = MsgWebDAVNotConfigured,
                      details = ErrorObj MsgWebDAVNotConfigured\<rparr>\<rparr> \<and>
   fst (rs_connect test_config connect_refused (rs_new quiet)) = Inr False \<and>
   fst (rs_startSync 1 empty_stores 7 rs_failed) = Inr () \<and>
   status (adapter_status (snd (rs_startSync 1 empty_stores 7 rs_failed))) = Completed"
proof -
  have wd: "wd_config (wd_new quiet) = None"
       "syncStatus (wd_new quiet) = \<lparr>status = Idle, progress = None, error = None\<rparr>"
    by (simp_all add: wd_new_def)
  have c: "fst (rs_connect test_config connect_refused (rs_new quiet)) = Inr False"
    by (simp add: rs_connect_def run_simps test_config_def connect_refused_def)
  have f: "config rs_failed = Some test_config" "remoteInfo rs_failed = Some test_info"
       "token rs_failed = Some \<lparr>accessToken = ''test-token'', tokenType = ''Bearer''\<rparr>"
    by (simp_all add: rs_failed_def rs_connect_def run_simps test_config_def
        connect_refused_def)
  have s: "fst (rs_startSync 1 empty_stores 7 rs_failed) = Inr () \<and>
           status (adapter_status (snd (rs_startSync 1 empty_stores 7 rs_failed))) = Completed"
    by (simp add: rs_startSync_def rs_triggerSync_def listRemoteDocuments_def
        syncRemoteToLocal_def syncLocalToRemote_def run_simps f do_effect_def
        empty_stores_def test_config_def)
  show ?thesis
    using c s by (simp add: wd_blank_startSync wd spread_def)
qed

section \<open>The merge engine\<close>

lemma find_distinct:
  "distinct (map f xs) \<Longrightarrow> x \<in> set xs \<Longrightarrow> find (\<lambda>y. f y = f x) xs = Some x"
  by (induction xs) (auto simp: image_iff)

lemma str_less_irrefl: "\<not> str_less a a"
  by (induction a) simp_all

lemma str_less_asym: "str_less a b \<Longrightarrow> \<not> str_less b a"
  by (induction a b rule: str_less.induct) (auto split: if_splits)

lemma own_doc_id:
  "list_all own_doc rows \<Longrightarrow> r \<in> set rows \<Longrightarrow> row_doc r = Some d \<Longrightarrow> doc_id d = row_id r"
  by (auto simp: list_all_iff own_doc_def)

lemma same_row:
  "distinct (map row_id rows) \<Longrightarrow> r \<in> set rows \<Longrightarrow> L \<in> set rows \<Longrightarrow> row_id r = row_id L \<Longrightarrow>
   r = L"
  by (simp add: distinct_map inj_on_def)

lemma same_doc:
  "distinct (map doc_id docs) \<Longrightarrow> d \<in> set docs \<Longrightarrow> R \<in> set docs \<Longrightarrow> doc_id d = doc_id R \<Longrightarrow>
   d = R"
  by (simp add: distinct_map inj_on_def)

text \<open>Steps that make no call on a store keep every property of the calls made.\<close>

lemma effects_kept:
  "preserves (\<lambda>s. Q (effects s)) (updateStatus u)"
  "preserves (\<lambda>s. Q (effects s)) (dispatchEvent event data)"
  by (simp_all add: preserves_def updateStatus_run dispatchEvent_run)

lemma store_call_kept:
  "(\<And>calls. Q calls \<Longrightarrow> Q (calls @ [x])) \<Longrightarrow> preserves (\<lambda>s. Q (effects s)) (store_call env x)"
  by (simp add: preserves_def store_call_def)

lemma bind_listRemote:
  "(\<And>docs. remoteListing env = Inr docs \<Longrightarrow> preserves P (f docs)) \<Longrightarrow>
   preserves P (js_bind (listRemoteDocuments env) f)"
  by (auto simp: preserves_def js_bind_def listRemoteDocuments_def js_throw_def js_await_def
      split: sum.splits)

lemma bind_await:
  "(\<And>a. r = Inr a \<Longrightarrow> preserves P (f a)) \<Longrightarrow> preserves P (js_bind (js_await r) f)"
  by (auto simp: preserves_def js_bind_def js_await_def split: sum.splits)

text \<open>A pass in which both loops keep a property of the calls keeps it.\<close>

lemma triggerSync_keeps:
  assumes "remoteListing env = Inr remoteDocs" and "allDocs env = Inr rows"
    and "preserves (\<lambda>s. Q (effects s))
           (syncRemoteToLocal env rows remoteDocs :: (RemoteStorageAdapter, unit) js)"
    and "preserves (\<lambda>s. Q (effects s))
           (syncLocalToRemote env rows remoteDocs :: (RemoteStorageAdapter, unit) js)"
  shows "preserves (\<lambda>s. Q (effects s)) (rs_triggerSync env)"
  unfolding rs_triggerSync_def
  by (intro preserves_if preserves_throw preserves_try preserves_seq effects_kept
        bind_listRemote bind_await)
     (use assms in auto)

text \<open>With equal markers that are present neither loop writes the document.\<close>

lemma equal_markers_remote_loop:
  assumes "well_formed rows remoteDocs" "L \<in> set rows" "row_doc L = Some ld"
    "doc_rev ld = Some m" "m \<noteq> []"
    "R \<in> set remoteDocs" "doc_id R = row_id L" "doc_rev R = Some m"
  shows "preserves (\<lambda>s. filter (writes_id (row_id L)) (effects s) = k)
           (syncRemoteToLocal env rows remoteDocs)"
  unfolding syncRemoteToLocal_def
proof (rule preserves_forEach)
  fix d
  assume d: "d \<in> set remoteDocs"
  show "preserves (\<lambda>s. filter (writes_id (row_id L)) (effects s) = k)
          (js_when (remote_wins (find (\<lambda>r. row_id r = doc_id d) rows) d)
             (store_call env (PutLocal d)))"
  proof (cases "doc_id d = row_id L")
    case True
    with assms d have "d = R"
      by (auto simp: well_formed_def intro: same_doc)
    moreover have "find (\<lambda>r. row_id r = row_id L) rows = Some L"
      using assms(1,2) by (simp add: well_formed_def find_distinct)
    ultimately have "\<not> remote_wins (find (\<lambda>r. row_id r = doc_id d) rows) d"
      using assms by (simp add: remote_wins_def str_less_irrefl)
    then show ?thesis by (simp add: js_when_def preserves_return)
  next
    case False
    then show ?thesis by (intro preserves_when store_call_kept) simp
  qed
qed

lemma local_loop_keeps:
  assumes "well_formed rows remoteDocs" "L \<in> set rows" "row_doc L = Some ld"
    "truthy (doc_rev ld)"
    "R \<in> set remoteDocs" "doc_id R = row_id L" "\<not> js_gt (doc_rev ld) (doc_rev R)"
    "\<And>calls d. Q calls \<Longrightarrow> doc_id d \<noteq> row_id L \<Longrightarrow> Q (calls @ [PutRemote d])"
  shows "preserves (\<lambda>s. Q (effects s)) (syncLocalToRemote env rows remoteDocs)"
  unfolding syncLocalToRemote_def
proof (rule preserves_forEach)
  fix r
  assume r: "r \<in> set rows"
  let ?body = "case row_doc r of
          None \<Rightarrow> js_return ()
        | Some d \<Rightarrow>
            (if \<not> truthy (doc_rev d) then js_return ()
             else js_when (local_wins d (find (\<lambda>rd. doc_id rd = row_id r) remoteDocs))
                    (store_call env (PutRemote d)))"
  show "preserves (\<lambda>s. Q (effects s)) ?body"
  proof (cases "row_doc r")
    case None
    then show ?thesis by (simp add: preserves_return)
  next
    case (Some d)
    have id: "doc_id d = row_id r"
      using assms(1) r Some by (auto simp: well_formed_def intro: own_doc_id)
    show ?thesis
    proof (cases "row_id r = row_id L")
      case True
      with assms r have "r = L"
        by (auto simp: well_formed_def intro: same_row)
      moreover have "find (\<lambda>rd. doc_id rd = doc_id R) remoteDocs = Some R"
        using assms(1,5) by (simp add: well_formed_def find_distinct)
      ultimately have "\<not> local_wins d (find (\<lambda>rd. doc_id rd = row_id r) remoteDocs)"
        using assms Some by (simp add: local_wins_def)
      then show ?thesis by (simp add: Some js_when_def preserves_return)
    next
      case False
      with id have "doc_id d \<noteq> row_id L" by simp
      then show ?thesis
        by (simp add: Some preserves_return preserves_when store_call_kept assms(8))
    qed
  qed
qed

text \<open>
  C4. In a reconciliation pass whose listings hold a local document and a remote document
  with the same identifier and the same revision marker, the marker being present (not
  the empty string, which the code reads as absent), no write of that identifier is made,
  to the local store or to the remote one, whatever else the pass does and wherever it
  ends. The listings are as the stores give them: identifiers are not repeated and a row
  carries the document of its own identifier.
\<close>

theorem equal_markers_no_write:
  assumes "remoteListing env = Inr remoteDocs" and "allDocs env = Inr rows"
    and "well_formed rows remoteDocs"
    and "L \<in> set rows" and "row_doc L = Some ld" and "doc_rev ld = Some m" and "m \<noteq> []"
    and "R \<in> set remoteDocs" and "doc_id R = row_id L" and "doc_rev R = Some m"
  shows "filter (writes_id (row_id L)) (effects (snd (rs_triggerSync env s)))
           = filter (writes_id (row_id L)) (effects s)"
proof -
  let ?P = "\<lambda>calls. filter (writes_id (row_id L)) calls = filter (writes_id (row_id L)) (effects s)"
  have remote: "preserves (\<lambda>s'. ?P (effects s')) (syncRemoteToLocal env rows remoteDocs)"
    by (rule equal_markers_remote_loop [OF assms(3-10)])
  have "truthy (doc_rev ld)" and "\<not> js_gt (doc_rev ld) (doc_rev R)"
    using assms(6,7,10) by (simp_all add: str_less_irrefl)
  then have "local": "preserves (\<lambda>s'. ?P (effects s')) (syncLocalToRemote env rows remoteDocs)"
    by (intro local_loop_keeps [OF assms(3-5) _ assms(8,9)]) simp_all
  have "preserves (\<lambda>s'. ?P (effects s')) (rs_triggerSync env)"
    by (rule triggerSync_keeps [OF assms(1,2) remote "local"])
  then show ?thesis by (rule preservesD) simp
qed

text \<open>A pass in which no call on a store is rejected.\<close>

lemma fold_appends:
  "fold (\<lambda>x s. s\<lparr>effects := effects s @ w x\<rparr>) xs s
     = s\<lparr>effects := effects s @ concat (map w xs)\<rparr>"
  by (induction xs arbitrary: s) simp_all

lemma remote_loop_quiet:
  assumes "\<And>calls x. putOutcome env calls x = None"
  shows "syncRemoteToLocal env rows remoteDocs s
           = (Inr (), s\<lparr>effects := effects s @ map PutLocal (pulled rows remoteDocs)\<rparr>)"
proof -
  let ?w = "\<lambda>d. if remote_wins (find (\<lambda>r. row_id r = doc_id d) rows) d then [PutLocal d] else []"
  have "forEach (\<lambda>remoteDoc.
          js_when (remote_wins (find (\<lambda>r. row_id r = doc_id remoteDoc) rows) remoteDoc)
            (store_call env (PutLocal remoteDoc))) remoteDocs s
        = (Inr (), fold (\<lambda>d s. s\<lparr>effects := effects s @ ?w d\<rparr>) remoteDocs s)"
    by (rule forEach_total) (simp add: js_when_def store_call_def js_return_def assms)
  moreover have "concat (map ?w remoteDocs) = map PutLocal (pulled rows remoteDocs)"
    by (induction remoteDocs) (simp_all add: pulled_def)
  ultimately show ?thesis
    by (simp add: syncRemoteToLocal_def fold_appends)
qed

lemma local_loop_quiet:
  assumes "\<And>calls x. putOutcome env calls x = None"
  shows "syncLocalToRemote env rows remoteDocs s
           = (Inr (), s\<lparr>effects := effects s @ map PutRemote (pushed rows remoteDocs)\<rparr>)"
proof -
  let ?w = "\<lambda>r. map PutRemote (pushed_of remoteDocs r)"
  have "forEach (\<lambda>localRow.
        case row_doc localRow of
          None \<Rightarrow> js_return ()
        | Some d \<Rightarrow>
            (if \<not> truthy (doc_rev d) then js_return ()
             else js_when (local_wins d (find (\<lambda>rd. doc_id rd = row_id localRow) remoteDocs))
                    (store_call env (PutRemote d)))) rows s
        = (Inr (), fold (\<lambda>r s. s\<lparr>effects := effects s @ ?w r\<rparr>) rows s)"
    by (rule forEach_total)
       (simp add: js_when_def store_call_def js_return_def assms pushed_of_def
          split: option.split)
  moreover have "concat (map ?w rows) = map PutRemote (pushed rows remoteDocs)"
    by (simp add: pushed_def map_concat comp_def)
  ultimately show ?thesis
    by (simp add: syncLocalToRemote_def fold_appends)
qed

lemma quiet_pass:
  assumes "remoteListing env = Inr remoteDocs" and "allDocs env = Inr rows"
    and "\<And>calls x. putOutcome env calls x = None"
    and "localDB s \<noteq> None" and "remoteInfo s \<noteq> None" and "token s \<noteq> None"
  shows "fst (rs_triggerSync env s) = Inr ()"
    and "effects (snd (rs_triggerSync env s))
           = effects s @ map PutLocal (pulled rows remoteDocs)
               @ map PutRemote (pushed rows remoteDocs)"
    and "adapter_status (snd (rs_triggerSync env s))
           = (adapter_status s)\<lparr>status := Completed, progress := Some (Fin 100)\<rparr>"
  by (simp_all add: assms(1,2,4-6) rs_triggerSync_def listRemoteDocuments_def run_simps
      remote_loop_quiet [OF assms(3)] local_loop_quiet [OF assms(3)] spread_def)

text \<open>The remote loop calls \<open>put\<close> for a remote document that wins when no \<open>put\<close> of a
  document listed before it is rejected.\<close>

lemma drop_mono: "x \<in> set (drop (Suc n) xs) \<Longrightarrow> x \<in> set (drop n xs)"
  by (metis Suc_n_not_le_n nat_le_linear set_drop_subset_set_drop subsetD)

lemma established_seq:
  assumes "P (snd (m s))" and "preserves P n"
  shows "P (snd (js_seq m n s))"
proof (cases "m s")
  case (Pair r s1)
  then show ?thesis
    using assms by (cases r) (simp_all add: js_seq_def js_bind_def preserves_def)
qed

lemma remote_loop_reaches:
  assumes "R \<in> set docs"
    and "remote_wins (find (\<lambda>r. row_id r = doc_id R) rows) R"
    and "\<forall>d \<in> set (takeWhile (\<lambda>d. d \<noteq> R) docs). \<forall>calls. putOutcome env calls (PutLocal d) = None"
  shows "PutLocal R \<in> set (drop (length (effects s))
           (effects (snd (syncRemoteToLocal env rows docs s))))"
  using assms(1,3)
proof (induction docs arbitrary: s)
  case Nil
  then show ?case by simp
next
  case (Cons d ds)
  let ?body = "\<lambda>remoteDoc.
        js_when (remote_wins (find (\<lambda>r. row_id r = doc_id remoteDoc) rows) remoteDoc)
          (store_call env (PutLocal remoteDoc))"
  show ?case
  proof (cases "d = R")
    case True
    let ?s1 = "snd (?body R s)"
    let ?Q = "\<lambda>calls. PutLocal R \<in> set (drop (length (effects s)) calls)"
    have s1: "?Q (effects ?s1)"
      using assms(2) by (simp add: js_when_def store_call_def)
    have "preserves (\<lambda>s'. ?Q (effects s')) (forEach ?body ds)"
      by (intro preserves_forEach preserves_when store_call_kept) auto
    then have "?Q (effects (snd (js_seq (?body R) (forEach ?body ds) s)))"
      using s1 by (intro established_seq [where P = "\<lambda>s'. ?Q (effects s')"])
    then show ?thesis by (simp add: True syncRemoteToLocal_def)
  next
    case False
    then have R: "R \<in> set ds" using Cons.prems(1) by simp
    have rest: "\<forall>d \<in> set (takeWhile (\<lambda>d. d \<noteq> R) ds). \<forall>calls. putOutcome env calls (PutLocal d) = None"
      using Cons.prems(2) False by simp
    have ok: "putOutcome env (effects s) (PutLocal d) = None"
      using Cons.prems(2) False by simp
    note IH = Cons.IH [OF R rest]
    show ?thesis
    proof (cases "remote_wins (find (\<lambda>r. row_id r = doc_id d) rows) d")
      case True
      have "syncRemoteToLocal env rows (d # ds) s
              = syncRemoteToLocal env rows ds (s\<lparr>effects := effects s @ [PutLocal d]\<rparr>)"
        by (simp add: syncRemoteToLocal_def True js_when_def store_call_def ok js_seq_def js_bind_def)
      then show ?thesis
        using IH [of "s\<lparr>effects := effects s @ [PutLocal d]\<rparr>"] by (simp add: drop_mono)
    next
      case False
      have "syncRemoteToLocal env rows (d # ds) s = syncRemoteToLocal env rows ds s"
        by (simp add: syncRemoteToLocal_def False js_when_def js_seq_def js_bind_def js_return_def)
      then show ?thesis using IH [of s] by simp
    qed
  qed
qed

text \<open>What a first step has established, and every later step and the handler keep, holds
  after the \<open>try\<close> statement.\<close>

lemma established_in_try:
  assumes "P (snd (m s))" and "preserves P n" and "\<And>e. preserves P (h e)"
  shows "P (snd (try_catch (js_seq m n) h s))"
proof -
  have b: "P (snd (js_seq m n s))"
    using assms(1,2) by (rule established_seq)
  show ?thesis
  proof (cases "js_seq m n s")
    case (Pair r s1)
    then show ?thesis
      using b assms(3) by (cases r) (simp_all add: try_catch_def preserves_def)
  qed
qed

lemma pass_run:
  assumes "remoteListing env = Inr remoteDocs" and "allDocs env = Inr rows"
    and "localDB s \<noteq> None" and "remoteInfo s \<noteq> None" and "token s \<noteq> None"
  shows "rs_triggerSync env s =
     try_catch
       (js_seq (syncRemoteToLocal env rows remoteDocs)
       (js_seq (syncLocalToRemote env rows remoteDocs)
       (js_seq (updateStatus (status_progress Completed (Fin 100)))
               (dispatchEvent ''sync-complete'' no_payload))))
       (\<lambda>error.
          js_seq (updateStatus (status_error (message_or error MsgSyncFailed) error))
            (dispatchEvent ''sync-error''
               (error_payload (message_or error MsgSyncFailed) error)))
       (status_updated (status_progress Syncing (Fin 60))
         (status_updated (status_progress Syncing (Fin 30))
           (status_updated (status_progress Syncing (Fin 0)) s)))"
  by (simp add: assms rs_triggerSync_def try_catch_def js_seq_def js_bind_def updateStatus_run
      listRemoteDocuments_def js_await_def)

text \<open>
  C5. In a reconciliation pass whose listings hold a remote document with revision marker
  \<open>2\<close> and a local document with the same identifier and revision marker \<open>1\<close>, no
  write of that identifier is made to the remote store, wherever the pass ends; when the
  pass runs (the adapter is connected and started) and no put into the local store of a
  remote document listed before that one is rejected, the pass calls put on the local
  store with the remote document; and when no call on a store is rejected at all, the
  pass ends completed.
\<close>

theorem remote_newer_overwrites_local:
  assumes "remoteListing env = Inr remoteDocs" and "allDocs env = Inr rows"
    and "well_formed rows remoteDocs"
    and "L \<in> set rows" and "row_doc L = Some ld" and "doc_rev ld = Some ''1''"
    and "R \<in> set remoteDocs" and "doc_id R = row_id L" and "doc_rev R = Some ''2''"
  shows "filter (writes_remote_id (row_id L)) (effects (snd (rs_triggerSync env s)))
           = filter (writes_remote_id (row_id L)) (effects s) \<and>
         (localDB s \<noteq> None \<and> remoteInfo s \<noteq> None \<and> token s \<noteq> None \<and>
          (\<forall>d \<in> set (takeWhile (\<lambda>d. d \<noteq> R) remoteDocs).
             \<forall>calls. putOutcome env calls (PutLocal d) = None) \<longrightarrow>
            PutLocal R \<in> set (new_effects s (snd (rs_triggerSync env s)))) \<and>
         (localDB s \<noteq> None \<and> remoteInfo s \<noteq> None \<and> token s \<noteq> None \<and>
          (\<forall>calls x. putOutcome env calls x = None) \<longrightarrow>
            status (adapter_status (snd (rs_triggerSync env s))) = Completed)"
proof (intro conjI impI)
  let ?P = "\<lambda>calls. filter (writes_remote_id (row_id L)) calls
                  = filter (writes_remote_id (row_id L)) (effects s)"
  have remote: "preserves (\<lambda>s'. ?P (effects s')) (syncRemoteToLocal env rows remoteDocs)"
    unfolding syncRemoteToLocal_def
    by (intro preserves_forEach preserves_when store_call_kept) simp
  have "truthy (doc_rev ld)" and "\<not> js_gt (doc_rev ld) (doc_rev R)"
    using assms(6,9) by simp_all
  then have "local": "preserves (\<lambda>s'. ?P (effects s')) (syncLocalToRemote env rows remoteDocs)"
    by (intro local_loop_keeps [OF assms(3-5) _ assms(7,8)]) simp_all
  have "preserves (\<lambda>s'. ?P (effects s')) (rs_triggerSync env)"
    by (rule triggerSync_keeps [OF assms(1,2) remote "local"])
  then show "?P (effects (snd (rs_triggerSync env s)))" by (rule preservesD) simp
next
  assume h: "localDB s \<noteq> None \<and> remoteInfo s \<noteq> None \<and> token s \<noteq> None \<and>
          (\<forall>d \<in> set (takeWhile (\<lambda>d. d \<noteq> R) remoteDocs).
             \<forall>calls. putOutcome env calls (PutLocal d) = None)"
  let ?Q = "\<lambda>calls. PutLocal R \<in> set (drop (length (effects s)) calls)"
  let ?s3 = "status_updated (status_progress Syncing (Fin 60))
         (status_updated (status_progress Syncing (Fin 30))
           (status_updated (status_progress Syncing (Fin 0)) s))"
  have found: "find (\<lambda>r. row_id r = row_id L) rows = Some L"
    using assms(3,4) by (simp add: well_formed_def find_distinct)
  have wins: "remote_wins (find (\<lambda>r. row_id r = doc_id R) rows) R"
    using assms(5,6,8,9) found by (simp add: remote_wins_def)
  have "PutLocal R \<in> set (drop (length (effects ?s3))
           (effects (snd (syncRemoteToLocal env rows remoteDocs ?s3))))"
    using assms(7) wins h by (intro remote_loop_reaches) simp_all
  then have first: "?Q (effects (snd (syncRemoteToLocal env rows remoteDocs ?s3)))"
    by simp
  have "truthy (doc_rev ld)" and "\<not> js_gt (doc_rev ld) (doc_rev R)"
    using assms(6,9) by simp_all
  then have "local": "preserves (\<lambda>s'. ?Q (effects s')) (syncLocalToRemote env rows remoteDocs)"
    by (intro local_loop_keeps [OF assms(3-5) _ assms(7,8)]) simp_all
  have "?Q (effects (snd (rs_triggerSync env s)))"
    unfolding pass_run [OF assms(1,2), of s, OF conjunct1 [OF h] conjunct1 [OF conjunct2 [OF h]]
        conjunct1 [OF conjunct2 [OF conjunct2 [OF h]]]]
    using first
    by (intro established_in_try [where P = "\<lambda>s'. ?Q (effects s')"] preserves_seq "local"
        effects_kept)
  then show "PutLocal R \<in> set (new_effects s (snd (rs_triggerSync env s)))"
    by (simp add: new_effects_def)
next
  assume h: "localDB s \<noteq> None \<and> remoteInfo s \<noteq> None \<and> token s \<noteq> None \<and>
          (\<forall>calls x. putOutcome env calls x = None)"
  then show "status (adapter_status (snd (rs_triggerSync env s))) = Completed"
    by (simp add: quiet_pass [OF assms(1,2)])
qed

lemma rs_synced_closed:
  "rs_synced =
     \<lparr>listenerThrows = quiet, invoked = [], console = [], effects = [SetInterval 7],
      adapter_status = \<lparr>status = Completed, progress = Some (Fin 100), error = None\<rparr>,
      eventListeners = Map.empty,
      localDB = Some 1, config = Some test_config, autoSyncTimer = Some 7,
      remoteInfo = Some test_info,
      token = Some \<lparr>accessToken = ''test-token'', tokenType = ''Bearer''\<rparr>\<rparr>"
  by (simp add: rs_synced_def rs_startSync_def rs_triggerSync_def listRemoteDocuments_def
      syncRemoteToLocal_def syncLocalToRemote_def rs_connect_def js_defs updateStatus_def
      dispatchEvent_def rs_new_def do_effect_def
      test_config_def connect_ok_def empty_stores_def spread_def only_status_def
      status_progress_def)

lemma stores_with_fields:
  "remoteListing (stores_with a b) = Inr [doc_with b ''remote'']"
  "allDocs (stores_with a b) = Inr [\<lparr>row_id = ''a'', row_doc = Some (doc_with a ''local'')\<rparr>]"
  "putOutcome (stores_with a b) calls x = None"
  "well_formed [\<lparr>row_id = ''a'', row_doc = Some (doc_with a ''local'')\<rparr>] [doc_with b ''remote'']"
  by (simp_all add: stores_with_def well_formed_def own_doc_def doc_with_def)

theorem remote_newer_overwrites_local_witness:
  "new_effects rs_synced (snd (rs_triggerSync (stores_with ''1'' ''2'') rs_synced))
     = [PutLocal (doc_with ''2'' ''remote'')] \<and>
   status (adapter_status (snd (rs_triggerSync (stores_with ''1'' ''2'') rs_synced))) = Completed"
proof -
  have s: "localDB rs_synced \<noteq> None" "remoteInfo rs_synced \<noteq> None" "token rs_synced \<noteq> None"
       "effects rs_synced = [SetInterval 7]"
    by (simp_all add: rs_synced_closed)
  have w: "pulled [\<lparr>row_id = ''a'', row_doc = Some (doc_with ''1'' ''local'')\<rparr>]
             [doc_with ''2'' ''remote''] = [doc_with ''2'' ''remote'']"
          "pushed [\<lparr>row_id = ''a'', row_doc = Some (doc_with ''1'' ''local'')\<rparr>]
             [doc_with ''2'' ''remote''] = []"
    by (simp_all add: pulled_def pushed_def pushed_of_def remote_wins_def local_wins_def
        doc_with_def)
  have q: "effects (snd (rs_triggerSync (stores_with ''1'' ''2'') rs_synced))
             = [SetInterval 7, PutLocal (doc_with ''2'' ''remote'')]"
    using quiet_pass(2) [where env = "stores_with ''1'' ''2''" and s = rs_synced,
        OF stores_with_fields(1,2,3) s(1,2,3)]
    by (simp add: s w)
  show ?thesis
    using remote_newer_overwrites_local
      [where env = "stores_with ''1'' ''2''" and s = rs_synced
         and L = "\<lparr>row_id = ''a'', row_doc = Some (doc_with ''1'' ''local'')\<rparr>"
         and ld = "doc_with ''1'' ''local''" and R = "doc_with ''2'' ''remote''",
       OF stores_with_fields(1,2,4)]
    by (simp add: q s new_effects_def doc_with_def stores_with_fields)
qed

text \<open>The put of a document listed before is rejected: the pass ends there with the status
  \<open>error\<close>, and put is never called with the remote document of marker \<open>2\<close>.\<close>

theorem rejected_put_ends_pass:
  "remoteListing stores_rejecting = Inr [other_doc, doc_with ''2'' ''remote''] \<and>
   allDocs stores_rejecting = Inr [\<lparr>row_id = ''a'', row_doc = Some (doc_with ''1'' ''local'')\<rparr>] \<and>
   doc_id (doc_with ''2'' ''remote'') = ''a'' \<and>
   doc_rev (doc_with ''2'' ''remote'') = Some ''2'' \<and>
   doc_rev (doc_with ''1'' ''local'') = Some ''1'' \<and>
   new_effects rs_synced (snd (rs_triggerSync stores_rejecting rs_synced)) = [PutLocal other_doc] \<and>
   PutLocal (doc_with ''2'' ''remote'')
     \<notin> set (new_effects rs_synced (snd (rs_triggerSync stores_rejecting rs_synced))) \<and>
   status (adapter_status (snd (rs_triggerSync stores_rejecting rs_synced))) = Error"
  by (simp add: stores_rejecting_def other_doc_def doc_with_def new_effects_def rs_synced_closed
      rs_triggerSync_def listRemoteDocuments_def syncRemoteToLocal_def syncLocalToRemote_def
      js_defs updateStatus_def dispatchEvent_def store_call_def remote_wins_def
      spread_def status_progress_def status_error_def)

theorem equal_markers_no_write_witness:
  "new_effects rs_synced (snd (rs_triggerSync (stores_with ''1-abc'' ''1-abc'') rs_synced)) = [] \<and>
   status (adapter_status (snd (rs_triggerSync (stores_with ''1-abc'' ''1-abc'') rs_synced)))
     = Completed"
proof -
  have s: "localDB rs_synced \<noteq> None" "remoteInfo rs_synced \<noteq> None" "token rs_synced \<noteq> None"
       "effects rs_synced = [SetInterval 7]"
    by (simp_all add: rs_synced_closed)
  have w: "pulled [\<lparr>row_id = ''a'', row_doc = Some (doc_with ''1-abc'' ''local'')\<rparr>]
             [doc_with ''1-abc'' ''remote''] = []"
          "pushed [\<lparr>row_id = ''a'', row_doc = Some (doc_with ''1-abc'' ''local'')\<rparr>]
             [doc_with ''1-abc'' ''remote''] = []"
    by (simp_all add: pulled_def pushed_def pushed_of_def remote_wins_def local_wins_def
        doc_with_def)
  have q: "effects (snd (rs_triggerSync (stores_with ''1-abc'' ''1-abc'') rs_synced))
             = [SetInterval 7]"
    using quiet_pass(2) [where env = "stores_with ''1-abc'' ''1-abc''" and s = rs_synced,
        OF stores_with_fields(1,2,3) s(1,2,3)]
    by (simp add: s w)
  have c: "status (adapter_status (snd (rs_triggerSync (stores_with ''1-abc'' ''1-abc'') rs_synced)))
             = Completed"
    using quiet_pass(3) [where env = "stores_with ''1-abc'' ''1-abc''" and s = rs_synced,
        OF stores_with_fields(1,2,3) s(1,2,3)]
    by simp
  have "filter (writes_id ''a'')
          (effects (snd (rs_triggerSync (stores_with ''1-abc'' ''1-abc'') rs_synced)))
        = filter (writes_id ''a'') (effects rs_synced)"
    using equal_markers_no_write
      [where env = "stores_with ''1-abc'' ''1-abc''" and s = rs_synced
         and L = "\<lparr>row_id = ''a'', row_doc = Some (doc_with ''1-abc'' ''local'')\<rparr>"
         and ld = "doc_with ''1-abc'' ''local''" and m = "''1-abc''"
         and R = "doc_with ''1-abc'' ''remote''",
       OF stores_with_fields(1,2,4)]
    by (simp add: doc_with_def)
  then show ?thesis
    by (simp add: q c s new_effects_def)
qed

section \<open>Progress reports\<close>





section \<open>The invariant of the status\<close>

text \<open>No operation clears \<open>progress\<close> or \<open>error\<close>: every status update is one of the object
  literals of the adapters, none of which names \<open>progress\<close> or \<open>error\<close> with the value
  \<open>undefined\<close>, and the update is merged into the old status.\<close>

lemma kept_spread:
  "p_progress u \<noteq> Some None \<Longrightarrow> p_error u \<noteq> Some None \<Longrightarrow> defined_kept c st \<Longrightarrow>
   defined_kept c (spread st u)"
  by (auto simp: defined_kept_def split: option.splits)

lemma kept_literals:
  "defined_kept c st \<Longrightarrow> defined_kept c (spread st (only_status x))"
  "defined_kept c st \<Longrightarrow> defined_kept c (spread st (status_progress x p))"
  "defined_kept c st \<Longrightarrow> defined_kept c (spread st (status_error m e))"
  by (simp_all add: kept_spread)

lemma rs_kept_updateStatus:
  "(\<And>st. defined_kept c st \<Longrightarrow> defined_kept c (spread st u)) \<Longrightarrow>
   preserves (\<lambda>s. defined_kept c (adapter_status s)) (updateStatus u)"
  by (simp add: preserves_def)

lemma rs_kept_dispatchEvent:
  "preserves (\<lambda>s. defined_kept c (adapter_status s)) (dispatchEvent event data)"
  by (simp add: preserves_def)

lemma rs_kept_world:
  "preserves (\<lambda>s. defined_kept c (adapter_status s)) (store_call env x)"
  "preserves (\<lambda>s. defined_kept c (adapter_status s)) (do_effect x)"
  "preserves (\<lambda>s. defined_kept c (adapter_status s)) (console_error entry)"
  by (simp_all add: preserves_def store_call_def do_effect_def console_error_def js_modify_def)

lemma rs_kept_loops:
  "preserves (\<lambda>s. defined_kept c (adapter_status s)) (syncRemoteToLocal env rows remoteDocs)"
  "preserves (\<lambda>s. defined_kept c (adapter_status s)) (syncLocalToRemote env rows remoteDocs)"
  unfolding syncRemoteToLocal_def syncLocalToRemote_def
  by (rule preserves_forEach, simp add: preserves_return preserves_when rs_kept_world
        split: option.split)+

lemma rs_kept_triggerSync:
  "preserves (\<lambda>s. defined_kept c (adapter_status s)) (rs_triggerSync env)"
  unfolding rs_triggerSync_def listRemoteDocuments_def
  by (intro preserves_intros rs_kept_updateStatus rs_kept_dispatchEvent rs_kept_loops
        kept_literals)

lemma rs_kept_connect:
  "preserves (\<lambda>s. defined_kept c (adapter_status s)) (rs_connect cfg env)"
  unfolding rs_connect_def
  by (intro preserves_intros rs_kept_updateStatus rs_kept_dispatchEvent kept_literals
        preserves_modify)
     simp_all

lemma rs_kept_startSync:
  "preserves (\<lambda>s. defined_kept c (adapter_status s)) (rs_startSync db env timer)"
  unfolding rs_startSync_def
  by (intro preserves_intros rs_kept_triggerSync rs_kept_world preserves_modify
        preserves_option [where g = "\<lambda>s. autoSyncInterval c" for c])
     simp_all

lemma rs_kept_tick:
  "preserves (\<lambda>s. defined_kept c (adapter_status s)) (rs_autoSyncTick env)"
  unfolding rs_autoSyncTick_def
  by (intro preserves_intros rs_kept_triggerSync rs_kept_world rs_kept_updateStatus kept_literals)

lemma rs_kept_stopSync:
  "preserves (\<lambda>s. defined_kept c (adapter_status s)) rs_stopSync"
  unfolding rs_stopSync_def
  by (intro preserves_intros rs_kept_world rs_kept_updateStatus rs_kept_dispatchEvent
        kept_literals preserves_modify)
     simp_all

lemma rs_kept_listeners:
  "preserves (\<lambda>s. defined_kept c (adapter_status s)) (addEventListener event l)"
  "preserves (\<lambda>s. defined_kept c (adapter_status s)) (removeEventListener event l)"
  by (simp_all add: preserves_def addEventListener_def removeEventListener_def
      js_modify_def split: option.split)

lemma defined_kept_refl: "defined_kept st st"
  by (simp add: defined_kept_def)

lemma rs_step_kept: "rs_step s s' \<Longrightarrow> defined_kept (adapter_status s) (adapter_status s')"
  by (induction rule: rs_step.induct)
     (auto intro: preservesD [where P = "\<lambda>s'. defined_kept (adapter_status s) (adapter_status s')" for s]
        rs_kept_listeners rs_kept_connect rs_kept_startSync rs_kept_tick rs_kept_stopSync
        defined_kept_refl)

lemma wd_kept_updateStatus:
  "(\<And>st. defined_kept c st \<Longrightarrow> defined_kept c (spread st u)) \<Longrightarrow>
   preserves (\<lambda>s. defined_kept c (syncStatus s)) (wd_updateStatus u)"
  by (simp add: preserves_def wd_updateStatus_def js_modify_def)

lemma wd_kept_triggerEvent:
  "preserves (\<lambda>s. defined_kept c (syncStatus s)) (triggerEvent event data)"
  by (simp add: preserves_def triggerEvent_run)

lemma wd_kept_effect: "preserves (\<lambda>s. defined_kept c (syncStatus s)) (do_effect x)"
  by (simp add: preserves_def do_effect_def js_modify_def)

lemma wd_kept_on: "preserves (\<lambda>s. defined_kept c (syncStatus s)) (wd_on ev)"
  by (cases ev)
     (auto intro!: preserves_seq wd_kept_updateStatus wd_kept_triggerEvent kept_literals)

lemma wd_kept_connect: "preserves (\<lambda>s. defined_kept c (syncStatus s)) (wd_connect cfg)"
  unfolding wd_connect_def checkConnection_def
  by (intro preserves_intros wd_kept_updateStatus wd_kept_triggerEvent kept_literals
        preserves_modify preserves_option [where g = wd_config])
     simp_all

lemma wd_kept_triggerSync:
  "preserves (\<lambda>s. defined_kept c (syncStatus s)) (wd_triggerSync outcome)"
  unfolding wd_triggerSync_def
  by (intro preserves_intros wd_kept_updateStatus wd_kept_triggerEvent kept_literals)

lemma wd_kept_tick:
  "preserves (\<lambda>s. defined_kept c (syncStatus s)) (wd_autoSyncTick outcome)"
  unfolding wd_autoSyncTick_def
  by (intro preserves_intros wd_kept_triggerSync)

lemma wd_kept_stopSync: "preserves (\<lambda>s. defined_kept c (syncStatus s)) wd_stopSync"
  unfolding wd_stopSync_def
  by (intro preserves_intros wd_kept_updateStatus wd_kept_triggerEvent wd_kept_effect
        kept_literals preserves_modify)
     simp_all

lemma wd_kept_listeners:
  "preserves (\<lambda>s. defined_kept c (syncStatus s)) (wd_addEventListener event l)"
  "preserves (\<lambda>s. defined_kept c (syncStatus s)) (wd_removeEventListener event l)"
  by (simp_all add: preserves_def wd_addEventListener_def wd_removeEventListener_def
      js_modify_def split: option.split)

lemma wd_kept_startSync:
  "preserves (\<lambda>s. defined_kept c (syncStatus s)) (wd_startSync db env)"
  by (auto simp: preserves_def wd_startSync_def js_defs wd_updateStatus_def
      triggerEvent_run setupAutoSync_def do_effect_def kept_literals
      split: option.splits sum.splits if_splits)

lemma wd_step_kept: "wd_step s s' \<Longrightarrow> defined_kept (syncStatus s) (syncStatus s')"
  by (induction rule: wd_step.induct)
     (auto intro: preservesD [where P = "\<lambda>s'. defined_kept (syncStatus s) (syncStatus s')" for s]
        wd_kept_listeners wd_kept_connect wd_kept_startSync wd_kept_tick wd_kept_stopSync
        wd_kept_on defined_kept_refl)

lemma defined_kept_trans:
  "defined_kept a b \<Longrightarrow> defined_kept b c \<Longrightarrow> defined_kept a c"
  by (auto simp: defined_kept_def)

lemma rs_steps_kept:
  "rs_step\<^sup>*\<^sup>* s s' \<Longrightarrow> defined_kept (adapter_status s) (adapter_status s')"
  by (induction rule: rtranclp_induct)
     (auto intro: defined_kept_refl defined_kept_trans rs_step_kept)

lemma wd_steps_kept:
  "wd_step\<^sup>*\<^sup>* w w' \<Longrightarrow> defined_kept (syncStatus w) (syncStatus w')"
  by (induction rule: rtranclp_induct)
     (auto intro: defined_kept_refl defined_kept_trans wd_step_kept)

lemma rs_reachable_step: "rs_reachable s \<Longrightarrow> rs_step s s' \<Longrightarrow> rs_reachable s'"
  by (auto elim!: rs_step.cases intro: rs_reachable.intros)

lemma wd_unstarted_status:
  "syncStatus (snd (wd_startSync 1 wd_env (wd_new quiet)))
     = \<lparr>status = Error, progress = None,
        error = Some \<lparr>message = MsgWebDAVNotConfigured,
                      details = ErrorObj MsgWebDAVNotConfigured\<rparr>\<rparr>"
proof -
  have "wd_config (wd_new quiet) = None"
       "syncStatus (wd_new quiet) = \<lparr>status = Idle, progress = None, error = None\<rparr>"
    by (simp_all add: wd_new_def)
  then show ?thesis
    by (simp add: wd_blank_startSync spread_def)
qed

lemma wd_stopped_status:
  "syncStatus (snd (wd_stopSync (wd_new quiet)))
     = \<lparr>status = Idle, progress = Some (Fin 0), error = None\<rparr>"
  by (simp add: wd_stopSync_status wd_new_def spread_def)

lemma rs_retried_status:
  "adapter_status (snd (rs_connect test_config connect_ok rs_failed))
     = \<lparr>status = Connected, progress = None,
        error = Some \<lparr>message = MsgConnectionTestFailed,
                      details = ErrorObj MsgConnectionTestFailed\<rparr>\<rparr>"
proof -
  have "fst (rs_connect test_config connect_ok rs_failed) = Inr True"
    by (simp add: rs_connect_def run_simps test_config_def connect_ok_def)
  then show ?thesis
    by (simp add: rs_failed_status rs_connect_success_status spread_def)
qed

lemma wd_reachable_step:
  "wd_reachable w \<Longrightarrow> wd_step w w' \<Longrightarrow> wd_localDB w \<noteq> None \<Longrightarrow> wd_reachable w'"
  by (auto elim!: wd_step.cases intro: wd_reachable.intros)

text \<open>
  C3, as amended. After every sequence of operations on a RemoteStorage adapter or a
  WebDAV adapter, \<open>progress\<close> is defined whenever the status is syncing or completed, and
  \<open>error\<close> is defined whenever the status is error; and through every sequence of
  operations, from any state, \<open>progress\<close> stays defined once it is defined, and so does
  \<open>error\<close>.
\<close>

theorem reachable_status_consistent:
  "(rs_reachable s \<longrightarrow> status_consistent (adapter_status s)) \<and>
   (wd_reachable w \<longrightarrow> status_consistent (syncStatus w)) \<and>
   (rs_step\<^sup>*\<^sup>* r r' \<longrightarrow> defined_kept (adapter_status r) (adapter_status r')) \<and>
   (wd_step\<^sup>*\<^sup>* v v' \<longrightarrow> defined_kept (syncStatus v) (syncStatus v'))"
  using rs_reachable_ok [of s] wd_reachable_ok [of w] rs_steps_kept [of r r']
    wd_steps_kept [of v v']
  by (simp add: rs_ok_def wd_ok_def)

text \<open>The invariant at work: a completed pass has a progress, a refused connection and a
  \<open>startSync\<close> without configuration have an error; the error of the refused connection
  is still there after a successful \<open>connect\<close> and a \<open>stopSync\<close>, and the progress that
  \<open>stopSync\<close> stores is still there after the replication has paused.\<close>

theorem reachable_status_consistent_witness:
  "rs_reachable rs_synced \<and>
   status (adapter_status rs_synced) = Completed \<and>
   progress (adapter_status rs_synced) \<noteq> None \<and>
   rs_reachable rs_failed \<and>
   status (adapter_status rs_failed) = Error \<and>
   error (adapter_status rs_failed) \<noteq> None \<and>
   wd_reachable (snd (wd_startSync 1 wd_env (wd_new quiet))) \<and>
   status (syncStatus (snd (wd_startSync 1 wd_env (wd_new quiet)))) = Error \<and>
   error (syncStatus (snd (wd_startSync 1 wd_env (wd_new quiet)))) \<noteq> None \<and>
   rs_step\<^sup>*\<^sup>* rs_failed (snd (rs_stopSync (snd (rs_connect test_config connect_ok rs_failed)))) \<and>
   error (adapter_status (snd (rs_stopSync (snd (rs_connect test_config connect_ok rs_failed)))))
     \<noteq> None \<and>
   wd_step\<^sup>*\<^sup>* (snd (wd_stopSync (wd_new quiet)))
     (snd (wd_on PausedEv (snd (wd_stopSync (wd_new quiet))))) \<and>
   progress (syncStatus (snd (wd_on PausedEv (snd (wd_stopSync (wd_new quiet)))))) \<noteq> None"
proof -
  let ?W = "snd (wd_startSync 1 wd_env (wd_new quiet))"
  let ?r' = "snd (rs_stopSync (snd (rs_connect test_config connect_ok rs_failed)))"
  let ?v = "snd (wd_stopSync (wd_new quiet))"
  let ?v' = "snd (wd_on PausedEv ?v)"
  have r1: "rs_reachable rs_synced"
    unfolding rs_synced_def by (intro rs_reachable.intros)
  have r2: "rs_reachable rs_failed"
    unfolding rs_failed_def by (intro rs_reachable.intros)
  have r3: "wd_reachable ?W"
    by (intro wd_reachable.intros)
  have r4: "rs_step\<^sup>*\<^sup>* rs_failed ?r'"
    by (meson rs_step.intros rtranclp.rtrancl_into_rtrancl rtranclp.rtrancl_refl)
  have r5: "wd_step\<^sup>*\<^sup>* ?v ?v'"
    by (meson wd_step.intros r_into_rtranclp)
  have s1: "status (adapter_status rs_synced) = Completed"
    by (simp add: rs_synced_fields)
  have s2: "status (adapter_status rs_failed) = Error"
    by (simp add: rs_failed_status)
  have s3: "status (syncStatus ?W) = Error"
    by (simp only: wd_unstarted_status) simp
  have s4: "error (adapter_status rs_failed) \<noteq> None"
    by (simp add: rs_failed_status)
  have s5: "progress (syncStatus ?v) \<noteq> None"
    by (simp add: wd_stopped_status)
  have "status_consistent (adapter_status rs_synced)"
    using reachable_status_consistent [of rs_synced] r1 by simp
  then have a: "progress (adapter_status rs_synced) \<noteq> None"
    using s1 by (simp add: status_consistent_def)
  have "status_consistent (adapter_status rs_failed)"
    using reachable_status_consistent [of rs_failed] r2 by simp
  then have b: "error (adapter_status rs_failed) \<noteq> None"
    using s2 by (simp add: status_consistent_def)
  have "status_consistent (syncStatus ?W)"
    using reachable_status_consistent [of _ ?W] r3 by simp
  then have c: "error (syncStatus ?W) \<noteq> None"
    using s3 by (simp add: status_consistent_def)
  have "defined_kept (adapter_status rs_failed) (adapter_status ?r')"
    using reachable_status_consistent [of _ _ rs_failed ?r'] r4 by simp
  then have d: "error (adapter_status ?r') \<noteq> None"
    using s4 by (simp add: defined_kept_def)
  have "defined_kept (syncStatus ?v) (syncStatus ?v')"
    using reachable_status_consistent [of _ _ _ _ ?v ?v'] r5 by simp
  then have e: "progress (syncStatus ?v') \<noteq> None"
    using s5 by (simp add: defined_kept_def)
  show ?thesis
    using r1 r2 r3 r4 r5 s1 s2 s3 a b c d e by (intro conjI)
qed

text \<open>C3 as the specification words it fails in both halves. On a new WebDAV adapter
  after one call of \<open>stopSync\<close> the status is idle and \<open>progress\<close> is defined, with the
  value 0 that line 411 of WebDAVAdapter.ts names. On a RemoteStorage adapter whose first
  \<open>connect\<close> was refused and whose second \<open>connect\<close> succeeds the status is connected and
  \<open>error\<close> is defined: it still holds the error of the first call.\<close>

theorem progress_and_error_outside_their_states:
  "wd_reachable (snd (wd_stopSync (wd_new quiet))) \<and>
   syncStatus (snd (wd_stopSync (wd_new quiet)))
     = \<lparr>status = Idle, progress = Some (Fin 0), error = None\<rparr> \<and>
   \<not> spec_invariant (syncStatus (snd (wd_stopSync (wd_new quiet)))) \<and>
   rs_reachable (snd (rs_connect test_config connect_ok rs_failed)) \<and>
   adapter_status (snd (rs_connect test_config connect_ok rs_failed))
     = \<lparr>status = Connected, progress = None,
        error = Some \<lparr>message = MsgConnectionTestFailed,
                      details = ErrorObj MsgConnectionTestFailed\<rparr>\<rparr> \<and>
   \<not> spec_invariant (adapter_status (snd (rs_connect test_config connect_ok rs_failed)))"
proof -
  have "wd_reachable (snd (wd_stopSync (wd_new quiet)))"
    by (intro wd_reachable.intros)
  moreover have "rs_reachable (snd (rs_connect test_config connect_ok rs_failed))"
    unfolding rs_failed_def by (intro rs_reachable.intros)
  ultimately show ?thesis
    by (simp add: wd_stopped_status rs_retried_status spec_invariant_def)
qed

end
